theory Spec2Isabelle
  imports Complex_Main
begin

section \<open>JavaScript numbers\<close>

text \<open>
  A JavaScript number is a double: \<open>NaN\<close>, an infinity, or a finite value. A finite
  value is kept as the rational it denotes, and every arithmetic operation rounds its
  exact result to the nearest double, a tie going to the even significand, a result of
  \<open>2 ^ 1024\<close> or more becoming an infinity. The two zeros of a double are one value,
  so a divisor \<open>-0\<close> is outside the model.
\<close>

datatype jsnum = NaN | NegInf | PosInf | Num rat

text \<open>The nearest integer, a tie going to the even one.\<close>

definition round_half_even :: "rat \<Rightarrow> int" where
  "round_half_even y =
     (let f = \<lfloor>y\<rfloor>; r = y - of_int f
      in if r < 1 / 2 then f else if 1 / 2 < r then f + 1
         else if even f then f else f + 1)"

text \<open>
  The exponent of the last place of a double near \<open>a \<ge> 0\<close>: the greatest \<open>e\<close> from
  \<open>-1073\<close> to \<open>971\<close> with \<open>2 powi (e + 52) \<le> a\<close>, found from the top, and \<open>-1074\<close>
  (the subnormal numbers and the least binade) when there is none.
\<close>

primrec double_exponent :: "rat \<Rightarrow> nat \<Rightarrow> int" where
  "double_exponent a 0 = - 1074"
| "double_exponent a (Suc n) =
     (if 2 powi (int n - 1021) \<le> a then int n - 1073 else double_exponent a n)"

text \<open>Rounding a rational to a double: 53 bits of significand, exponents up to 971.\<close>

definition round_double :: "rat \<Rightarrow> jsnum" where
  "round_double x =
     (let a = \<bar>x\<bar>;
          e = double_exponent a 2045;
          y = of_int (round_half_even (a / 2 powi e)) * 2 powi e
      in if 2 powi 1024 \<le> y then (if 0 < x then PosInf else NegInf)
         else Num (if 0 \<le> x then y else - y))"

fun js_neg :: "jsnum \<Rightarrow> jsnum" where
  "js_neg NaN = NaN"
| "js_neg NegInf = PosInf"
| "js_neg PosInf = NegInf"
| "js_neg (Num a) = Num (- a)"

text \<open>\<^verbatim>\<open>x + y\<close>: \<open>NaN\<close> is absorbing, and the two infinities cancel to \<open>NaN\<close>.\<close>

fun js_add :: "jsnum \<Rightarrow> jsnum \<Rightarrow> jsnum" where
  "js_add (Num a) (Num b) = round_double (a + b)"
| "js_add NaN y = NaN"
| "js_add x NaN = NaN"
| "js_add PosInf NegInf = NaN"
| "js_add NegInf PosInf = NaN"
| "js_add PosInf y = PosInf"
| "js_add NegInf y = NegInf"
| "js_add (Num a) y = y"

text \<open>\<^verbatim>\<open>x - y\<close> is \<^verbatim>\<open>x + (-y)\<close>.\<close>

definition js_sub :: "jsnum \<Rightarrow> jsnum \<Rightarrow> jsnum" where
  "js_sub x y = js_add x (js_neg y)"

text \<open>\<^verbatim>\<open>x * y\<close>: an infinity times zero is \<open>NaN\<close>, otherwise the signs multiply.\<close>

fun js_mul :: "jsnum \<Rightarrow> jsnum \<Rightarrow> jsnum" where
  "js_mul (Num a) (Num b) = round_double (a * b)"
| "js_mul NaN y = NaN"
| "js_mul x NaN = NaN"
| "js_mul (Num a) y = (if a = 0 then NaN else if 0 < a then y else js_neg y)"
| "js_mul x (Num b) = (if b = 0 then NaN else if 0 < b then x else js_neg x)"
| "js_mul PosInf y = y"
| "js_mul NegInf y = js_neg y"

text \<open>
  \<^verbatim>\<open>x / y\<close>: a non-zero number over zero is an infinity of the sign of the numerator,
  zero over zero is \<open>NaN\<close>, a finite number over an infinity is zero.
\<close>

fun js_div :: "jsnum \<Rightarrow> jsnum \<Rightarrow> jsnum" where
  "js_div (Num a) (Num b) =
     (if b = 0 then (if a = 0 then NaN else if 0 < a then PosInf else NegInf)
      else round_double (a / b))"
| "js_div NaN y = NaN"
| "js_div x NaN = NaN"
| "js_div (Num a) y = Num 0"
| "js_div x (Num b) = (if 0 \<le> b then x else js_neg x)"
| "js_div x y = NaN"

text \<open>\<^verbatim>\<open>x < y\<close>: every comparison with \<open>NaN\<close> is false.\<close>

fun js_lt :: "jsnum \<Rightarrow> jsnum \<Rightarrow> bool" where
  "js_lt (Num a) (Num b) = (a < b)"
| "js_lt NaN y = False"
| "js_lt x NaN = False"
| "js_lt x NegInf = False"
| "js_lt PosInf y = False"
| "js_lt NegInf y = True"
| "js_lt (Num a) PosInf = True"

definition js_gt :: "jsnum \<Rightarrow> jsnum \<Rightarrow> bool" where
  "js_gt x y = js_lt y x"

text \<open>\<^verbatim>\<open>x <= y\<close> is "not \<^verbatim>\<open>y < x\<close>" unless an operand is \<open>NaN\<close>.\<close>

definition js_le :: "jsnum \<Rightarrow> jsnum \<Rightarrow> bool" where
  "js_le x y = (x \<noteq> NaN \<and> y \<noteq> NaN \<and> \<not> js_lt y x)"

text \<open>
  \<^verbatim>\<open>Math.round\<close> gives the nearest integer, a tie going up (towards \<open>+\<infinity>\<close>): it
  is \<open>floor (x + 1/2)\<close>, taken exactly. \<^verbatim>\<open>Math.ceil\<close> is the least integer not below
  its argument. Both return \<open>NaN\<close> and the infinities unchanged.
\<close>

fun Math_round :: "jsnum \<Rightarrow> jsnum" where
  "Math_round (Num a) = Num (of_int \<lfloor>a + 1 / 2\<rfloor>)"
| "Math_round x = x"

fun Math_ceil :: "jsnum \<Rightarrow> jsnum" where
  "Math_ceil (Num a) = Num (of_int \<lceil>a\<rceil>)"
| "Math_ceil x = x"

section \<open>Core functions\<close>

text \<open>The Mifflin-St Jeor equation, \<^verbatim>\<open>calculateBMR\<close> of \<^verbatim>\<open>script.js\<close>.\<close>

definition calculateBMR :: "jsnum \<Rightarrow> jsnum \<Rightarrow> jsnum \<Rightarrow> string \<Rightarrow> jsnum" where
  "calculateBMR weight height age sex =
     (let bmr =
        (if sex = ''male''
         then js_add (js_sub (js_add (js_mul (Num 10) weight) (js_mul (Num 6.25) height))
                             (js_mul (Num 5) age)) (Num 5)
         else js_sub (js_sub (js_add (js_mul (Num 10) weight) (js_mul (Num 6.25) height))
                             (js_mul (Num 5) age)) (Num 161))
      in Math_round bmr)"

text \<open>\<^verbatim>\<open>calculateExerciseAdjustment\<close>: training time times the level's multiplier.\<close>

definition calculateExerciseAdjustment :: "jsnum \<Rightarrow> jsnum \<Rightarrow> jsnum" where
  "calculateExerciseAdjustment time multiplier = Math_round (js_mul time multiplier)"

text \<open>The calories per gram of each macronutrient, constants of \<^verbatim>\<open>script.js\<close>.\<close>

definition CAL_PER_GRAM_PROTEIN :: rat where
  "CAL_PER_GRAM_PROTEIN = 4"

definition CAL_PER_GRAM_CARBS :: rat where
  "CAL_PER_GRAM_CARBS = 4"

definition CAL_PER_GRAM_FAT :: rat where
  "CAL_PER_GRAM_FAT = 9"

section \<open>Strings, values and storage\<close>

text \<open>
  A character of the model is a UTF-16 code unit below 256. \<^verbatim>\<open>String.prototype.trim\<close>
  removes the white space and line terminators at both ends of a string; below 256
  these are TAB, LF, VT, FF, CR, the space and the no-break space.
\<close>

definition is_whitespace :: "char \<Rightarrow> bool" where
  "is_whitespace c = (of_char c \<in> set [9, 10, 11, 12, 13, 32, 160 :: nat])"

definition String_trim :: "string \<Rightarrow> string" where
  "String_trim s = rev (dropWhile is_whitespace (rev (dropWhile is_whitespace s)))"

text \<open>
  A value that is a number or \<^verbatim>\<open>null\<close>. \<open>ToNumber\<close> is the conversion an
  arithmetic operator or a comparison applies to its operand.
\<close>

datatype jsval = Null | Number jsnum

fun ToNumber :: "jsval \<Rightarrow> jsnum" where
  "ToNumber Null = Num 0"
| "ToNumber (Number x) = x"

text \<open>
  \<^verbatim>\<open>JSON.parse(JSON.stringify(x))\<close>: a finite number comes back as it is, \<open>NaN\<close>
  and the infinities are written as \<^verbatim>\<open>null\<close>.
\<close>

fun JSON_number :: "jsnum \<Rightarrow> jsval" where
  "JSON_number (Num a) = Number (Num a)"
| "JSON_number x = Null"

fun JSON_value :: "jsval \<Rightarrow> jsval" where
  "JSON_value Null = Null"
| "JSON_value (Number x) = JSON_number x"

text \<open>An item of the food log, the object \<^verbatim>\<open>{ name, calories }\<close>.\<close>

record food_entry =
  name :: string
  calories :: jsval

definition JSON_entry :: "food_entry \<Rightarrow> food_entry" where
  "JSON_entry item = \<lparr>name = name item, calories = JSON_value (calories item)\<rparr>"

text \<open>
  Local storage holds two items, under the keys \<^verbatim>\<open>dailyCalorieGoal\<close> and
  \<^verbatim>\<open>foodLog\<close>; \<open>None\<close> is a key that was never written. An item stands for the
  value \<^verbatim>\<open>saveToLocalStorage\<close> was given, so saving is the update of the item, and
  \<^verbatim>\<open>getFromLocalStorage\<close> returns the image of that value under
  \<^verbatim>\<open>JSON.stringify\<close> and \<^verbatim>\<open>JSON.parse\<close>, or the default value.
\<close>

record storage =
  dailyCalorieGoal :: "jsnum option"
  foodLog :: "food_entry list option"

definition empty_storage :: storage where
  "empty_storage = \<lparr>dailyCalorieGoal = None, foodLog = None\<rparr>"

definition getFromLocalStorage :: "('a \<Rightarrow> 'b) \<Rightarrow> 'a option \<Rightarrow> 'b \<Rightarrow> 'b" where
  "getFromLocalStorage json stored defaultValue =
     (case stored of Some v \<Rightarrow> json v | None \<Rightarrow> defaultValue)"

text \<open>
  \<^verbatim>\<open>Array.prototype.splice(start, deleteCount)\<close>: the start is made an integer
  (\<open>NaN\<close> counts as 0, a fraction is cut off), a negative start counts from the end of
  the array, the start is clamped to the array and the delete count to what is left.
\<close>

definition Array_splice :: "'a list \<Rightarrow> jsnum \<Rightarrow> int \<Rightarrow> 'a list" where
  "Array_splice xs start deleteCount =
     (let len = int (length xs);
          actualStart =
            (case start of
               NaN \<Rightarrow> 0
             | NegInf \<Rightarrow> 0
             | PosInf \<Rightarrow> len
             | Num r \<Rightarrow>
                 (let relativeStart = (if 0 \<le> r then \<lfloor>r\<rfloor> else \<lceil>r\<rceil>)
                  in if relativeStart < 0 then max (len + relativeStart) 0
                     else min relativeStart len));
          actualDeleteCount = min (max deleteCount 0) (len - actualStart)
      in take (nat actualStart) xs @ drop (nat (actualStart + actualDeleteCount)) xs)"

section \<open>Rendering\<close>

text \<open>
  \<^verbatim>\<open>renderLogAndSummary\<close>: the list shown (one line per item, its button carrying
  the position of the item), the total consumed, the calories remaining and whether
  the remaining figure is shown in the over-goal colour.
\<close>

record rendering =
  listed :: "food_entry list"
  consumed :: jsnum
  remaining :: jsnum
  over_goal :: bool

definition renderLogAndSummary :: "food_entry list \<Rightarrow> jsval \<Rightarrow> rendering" where
  "renderLogAndSummary entries goal =
     (let totalConsumed =
            fold (\<lambda>item total. js_add total (ToNumber (calories item))) entries (Num 0);
          remaining = js_sub (ToNumber goal) totalConsumed
      in \<lparr>listed = entries, consumed = totalConsumed, remaining = remaining,
          over_goal = js_lt remaining (Num 0)\<rparr>)"

section \<open>The goal form\<close>

text \<open>
  The fields of the calorie form as \<^verbatim>\<open>handleCalorieGoal\<close> reads them: six with
  \<^verbatim>\<open>parseInt\<close> (an integer, \<open>NaN\<close>, or an infinity when the digits exceed the
  range of a double), the sex as a string, the weekly loss rate with
  \<^verbatim>\<open>parseFloat\<close>.
\<close>

record goal_form =
  age_field :: jsnum
  height_field :: jsnum
  weight_field :: jsnum
  sex_field :: string
  training_time_field :: jsnum
  training_level_field :: jsnum
  goal_weight_field :: jsnum
  weekly_loss_rate_field :: jsnum

text \<open>Steps 4 and 5 of \<^verbatim>\<open>handleCalorieGoal\<close>: 50% carbohydrates, 25% protein, 25% fat.\<close>

record macros =
  gramsCarbs :: jsnum
  gramsProtein :: jsnum
  gramsFat :: jsnum

definition allocateMacros :: "jsnum \<Rightarrow> macros" where
  "allocateMacros finalDailyGoal =
     (let calCarbs = js_mul finalDailyGoal (Num 0.50);
          calProtein = js_mul finalDailyGoal (Num 0.25);
          calFat = js_mul finalDailyGoal (Num 0.25)
      in \<lparr>gramsCarbs = Math_round (js_div calCarbs (Num CAL_PER_GRAM_CARBS)),
          gramsProtein = Math_round (js_div calProtein (Num CAL_PER_GRAM_PROTEIN)),
          gramsFat = Math_round (js_div calFat (Num CAL_PER_GRAM_FAT))\<rparr>)"

text \<open>
  Step 6 of \<^verbatim>\<open>handleCalorieGoal\<close>. The two messages are kept as constructors that
  carry the number each message prints: the goal weight, or the number of weeks.
\<close>

datatype timeline = AlreadyAtOrPastGoal jsnum | WeeksRemaining jsnum

definition projectTimeline :: "jsnum \<Rightarrow> jsnum \<Rightarrow> jsnum \<Rightarrow> timeline" where
  "projectTimeline currentWeight goalWeight weeklyLossRate =
     (let weightDifference = js_sub currentWeight goalWeight
      in if js_le weightDifference (Num 0) then AlreadyAtOrPastGoal goalWeight
         else (let totalTimeWeeks = Math_ceil (js_div weightDifference weeklyLossRate)
               in WeeksRemaining totalTimeWeeks))"

text \<open>
  \<^verbatim>\<open>handleCalorieGoal\<close>: the new storage and everything the handler shows (the
  goal, the BMR and the exercise adjustment of the alert, the macro targets, the
  timeline and the summary rendered again).
\<close>

record goal_display =
  bmr :: jsnum
  exerciseAdjustment :: jsnum
  finalDailyGoal :: jsnum
  macroTargets :: macros
  timeMessage :: timeline
  summary :: rendering

definition handleCalorieGoal :: "storage \<Rightarrow> goal_form \<Rightarrow> storage \<times> goal_display" where
  "handleCalorieGoal st form =
     (let age = age_field form;
          height = height_field form;
          currentWeight = weight_field form;
          sex = sex_field form;
          trainingTime = training_time_field form;
          trainingMultiplier = training_level_field form;
          goalWeight = goal_weight_field form;
          weeklyLossRate = weekly_loss_rate_field form;
          bmr = calculateBMR currentWeight height age sex;
          exerciseAdjustment = calculateExerciseAdjustment trainingTime trainingMultiplier;
          finalDailyGoal = js_add bmr exerciseAdjustment;
          st' = st\<lparr>dailyCalorieGoal := Some finalDailyGoal\<rparr>;
          entries = getFromLocalStorage (map JSON_entry) (foodLog st') []
      in (st',
          \<lparr>bmr = bmr, exerciseAdjustment = exerciseAdjustment,
           finalDailyGoal = finalDailyGoal,
           macroTargets = allocateMacros finalDailyGoal,
           timeMessage = projectTimeline currentWeight goalWeight weeklyLossRate,
           summary = renderLogAndSummary entries (Number finalDailyGoal)\<rparr>))"

section \<open>The food log\<close>

text \<open>
  What a handler of the food log leaves on the screen: the alert of a rejected entry,
  the list and summary rendered again, or nothing.
\<close>

datatype feedback = Alert | Rendered rendering | Nothing

text \<open>
  \<^verbatim>\<open>handleFoodLog\<close>, given the text of the name field and the calories read with
  \<^verbatim>\<open>parseInt\<close>. An empty string is falsy. The summary is rendered from the array
  in memory, the storage keeps what \<^verbatim>\<open>JSON\<close> keeps of it.
\<close>

definition handleFoodLog :: "storage \<Rightarrow> string \<Rightarrow> jsnum \<Rightarrow> storage \<times> feedback" where
  "handleFoodLog st food_name food_calories =
     (let nm = String_trim food_name
      in if nm \<noteq> [] \<and> js_gt food_calories (Num 0) then
           (let entries = getFromLocalStorage (map JSON_entry) (foodLog st) [];
                entries' = entries @ [\<lparr>name = nm, calories = Number food_calories\<rparr>];
                st' = st\<lparr>foodLog := Some entries'\<rparr>;
                dailyGoal = getFromLocalStorage JSON_number (dailyCalorieGoal st') (Number (Num 0))
            in (st', Rendered (renderLogAndSummary entries' dailyGoal)))
         else (st, Alert))"

text \<open>
  \<^verbatim>\<open>handleDeleteFood\<close>, given whether the click hit a delete button and the
  \<^verbatim>\<open>data-index\<close> of the button read with \<^verbatim>\<open>parseInt\<close>.
\<close>

definition handleDeleteFood :: "storage \<Rightarrow> bool \<Rightarrow> jsnum \<Rightarrow> storage \<times> feedback" where
  "handleDeleteFood st delete_btn indexToDelete =
     (if delete_btn then
        (let entries = getFromLocalStorage (map JSON_entry) (foodLog st) [];
             entries' = Array_splice entries indexToDelete 1;
             st' = st\<lparr>foodLog := Some entries'\<rparr>;
             dailyGoal = getFromLocalStorage JSON_number (dailyCalorieGoal st') (Number (Num 0))
         in (st', Rendered (renderLogAndSummary entries' dailyGoal)))
      else (st, Nothing))"

text \<open>\<^verbatim>\<open>handleResetDay\<close>, given the answer to the confirmation prompt.\<close>

definition handleResetDay :: "storage \<Rightarrow> bool \<Rightarrow> storage \<times> feedback" where
  "handleResetDay st confirmed =
     (if confirmed then
        (let st' = st\<lparr>foodLog := Some []\<rparr>;
             dailyGoal = getFromLocalStorage JSON_number (dailyCalorieGoal st') (Number (Num 0))
         in (st', Rendered (renderLogAndSummary [] dailyGoal)))
      else (st, Nothing))"

text \<open>The events of the page, and the storage after a sequence of them.\<close>

datatype event =
    SubmitGoal goal_form
  | SubmitFood string jsnum
  | ClickLog bool jsnum
  | ClickReset bool

fun dispatch :: "storage \<Rightarrow> event \<Rightarrow> storage" where
  "dispatch st (SubmitGoal form) = fst (handleCalorieGoal st form)"
| "dispatch st (SubmitFood food_name food_calories) = fst (handleFoodLog st food_name food_calories)"
| "dispatch st (ClickLog delete_btn indexToDelete) = fst (handleDeleteFood st delete_btn indexToDelete)"
| "dispatch st (ClickReset confirmed) = fst (handleResetDay st confirmed)"

text \<open>The food log as the page reads it from the storage.\<close>

definition current_log :: "storage \<Rightarrow> food_entry list" where
  "current_log st = getFromLocalStorage (map JSON_entry) (foodLog st) []"

text \<open>The invariant of the data model: a positive calorie count and a non-empty name.\<close>

definition valid_entry :: "food_entry \<Rightarrow> bool" where
  "valid_entry item = (js_gt (ToNumber (calories item)) (Num 0) \<and> name item \<noteq> [])"

text \<open>An entry with a whole number of calories, and the calories of such entries.\<close>

definition entry_of :: "string \<times> int \<Rightarrow> food_entry" where
  "entry_of p = \<lparr>name = fst p, calories = Number (Num (of_int (snd p)))\<rparr>"

text \<open>An example storage: a goal of 2000 and a log of two entries.\<close>

definition apple_bread :: storage where
  "apple_bread = \<lparr>dailyCalorieGoal = Some (Num 2000),
     foodLog = Some [entry_of (''Apple'', 95), entry_of (''Bread'', 120)]\<rparr>"

text \<open>The doubles written \<^verbatim>\<open>0.3\<close> and \<^verbatim>\<open>0.7\<close>.\<close>

definition double_0_3 :: rat where
  "double_0_3 = 5404319552844595 / 2 ^ 54"

definition double_0_7 :: rat where
  "double_0_7 = 3152519739159347 / 2 ^ 52"

text \<open>The double written \<^verbatim>\<open>40.05\<close>.\<close>

definition double_40_05 :: rat where
  "double_40_05 = 2818268204315443 / 2 ^ 46"

section \<open>Rounding to a double\<close>

lemma round_half_even_cases:
  "round_half_even y = \<lfloor>y\<rfloor> \<or> round_half_even y = \<lfloor>y\<rfloor> + 1"
  by (simp add: round_half_even_def Let_def)

lemma round_half_even_nearest:
  "\<bar>of_int (round_half_even y) - y\<bar> \<le> \<bar>of_int j - y\<bar>"
proof -
  let ?f = "\<lfloor>y\<rfloor>"
  have f: "of_int ?f \<le> y" "y < of_int ?f + 1" by linarith+
  have "j \<le> ?f \<or> ?f + 1 \<le> j" by linarith
  then have j: "(of_int j :: rat) \<le> of_int ?f \<or> (of_int ?f :: rat) + 1 \<le> of_int j"
    by (metis of_int_le_iff of_int_add of_int_1)
  have "round_half_even y = ?f \<and> y - of_int ?f \<le> 1 / 2
      \<or> round_half_even y = ?f + 1 \<and> 1 / 2 \<le> y - of_int ?f"
    unfolding round_half_even_def Let_def by (simp split: if_splits)
  then show ?thesis
  proof (elim disjE conjE)
    assume r: "round_half_even y = ?f" and h: "y - of_int ?f \<le> 1 / 2"
    from f j h show ?thesis unfolding r by linarith
  next
    assume r: "round_half_even y = ?f + 1" and h: "1 / 2 \<le> y - of_int ?f"
    have "(of_int (?f + 1) :: rat) = of_int ?f + 1" by simp
    with f j h show ?thesis unfolding r by linarith
  qed
qed

lemma round_half_even_of_int: "round_half_even (of_int k) = k"
  by (simp add: round_half_even_def Let_def)

lemma round_half_even_close:
  "\<bar>of_int m - y\<bar> < 1 / 2 \<Longrightarrow> round_half_even y = m"
proof -
  assume a: "\<bar>of_int m - y\<bar> < 1 / 2"
  have "\<bar>of_int (round_half_even y) - y\<bar> \<le> \<bar>of_int m - y\<bar>"
    by (rule round_half_even_nearest)
  with a have "\<bar>(of_int (round_half_even y) :: rat) - of_int m\<bar> < 1" by linarith
  then have "\<bar>of_int (round_half_even y - m) :: rat\<bar> < 1" by simp
  then have "\<bar>round_half_even y - m\<bar> < 1"
    by (metis of_int_abs of_int_less_iff of_int_1)
  then show ?thesis by linarith
qed

lemma double_exponent_spec:
  "- 1074 \<le> double_exponent a n
   \<and> double_exponent a n \<le> int n - 1074
   \<and> (double_exponent a n \<noteq> - 1074 \<longrightarrow> 2 powi (double_exponent a n + 52) \<le> a)
   \<and> (a < 2 powi (int n - 1021) \<longrightarrow> a < 2 powi (double_exponent a n + 53))"
proof (induction n)
  case 0
  show ?case by simp
next
  case (Suc n)
  show ?case
  proof (cases "2 powi (int n - 1021) \<le> a")
    case True
    have "int n - 1073 + 52 = int n - 1021" "int n - 1073 + 53 = int (Suc n) - 1021" by simp_all
    with True show ?thesis by simp
  next
    case False
    with Suc show ?thesis by simp
  qed
qed


lemma two_powi_mono: "a \<le> b \<Longrightarrow> (2::rat) powi a \<le> 2 powi b"
  by (rule power_int_increasing) simp_all

lemma two_powi_less_cancel: "(2::rat) powi a < 2 powi b \<Longrightarrow> a < b"
proof (rule ccontr)
  assume l: "(2::rat) powi a < 2 powi b" and n: "\<not> a < b"
  from n have "b \<le> a" by simp
  then have "(2::rat) powi b \<le> 2 powi a" by (rule two_powi_mono)
  with l show False by simp
qed

lemma two_powi_split:
  assumes "e \<le> k"
  shows "(2::rat) powi k = of_int (2 ^ nat (k - e)) * 2 powi e"
proof -
  have "(2::rat) powi k = 2 powi ((k - e) + e)" by simp
  also have "\<dots> = 2 powi (k - e) * 2 powi e"
    by (rule power_int_add) simp
  also have "(2::rat) powi (k - e) = 2 ^ nat (k - e)"
    using assms by (simp add: power_int_nonneg_exp)
  finally show ?thesis by simp
qed

text \<open>The exponent found is the one of the binade of \<open>a\<close>, or the least one.\<close>

lemma double_exponent_bounds:
  "- 1074 \<le> double_exponent a 2045"
  "double_exponent a 2045 \<noteq> - 1074 \<Longrightarrow> 2 powi (double_exponent a 2045 + 52) \<le> a"
  "a < 2 powi 1024 \<Longrightarrow> a < 2 powi (double_exponent a 2045 + 53)"
  using double_exponent_spec [of a 2045] by simp_all

lemma double_exponent_le:
  assumes "- 1074 \<le> k" "a < 2 powi (k + 53)"
  shows "double_exponent a 2045 \<le> k"
proof (cases "double_exponent a 2045 = - 1074")
  case True
  with assms show ?thesis by simp
next
  case False
  then have "2 powi (double_exponent a 2045 + 52) \<le> a"
    by (rule double_exponent_bounds)
  with assms have "(2::rat) powi (double_exponent a 2045 + 52) < 2 powi (k + 53)"
    by simp
  then have "double_exponent a 2045 + 52 < k + 53"
    by (rule two_powi_less_cancel)
  then show ?thesis by simp
qed

lemma double_exponent_ge:
  assumes "k \<le> 970" "2 powi (k + 52) \<le> a" "a < 2 powi (k + 53)"
  shows "k \<le> double_exponent a 2045"
proof -
  have "(2::rat) powi (k + 53) \<le> 2 powi 1024"
    using assms(1) by (intro two_powi_mono) simp
  with assms have "a < 2 powi 1024" by simp
  then have "a < 2 powi (double_exponent a 2045 + 53)"
    by (rule double_exponent_bounds)
  with assms have "(2::rat) powi (k + 52) < 2 powi (double_exponent a 2045 + 53)"
    by simp
  then have "k + 52 < double_exponent a 2045 + 53"
    by (rule two_powi_less_cancel)
  then show ?thesis by simp
qed

text \<open>
  Rounding below \<open>2 powi (k + 53)\<close> gives a finite number that is at least as close
  as every multiple of \<open>2 powi k\<close>.
\<close>

lemma round_double_grid:
  assumes k: "- 1074 \<le> k" "k \<le> 970" and x: "\<bar>x\<bar> < 2 powi (k + 53)"
  shows "\<exists>y. round_double x = Num y \<and> (\<forall>j::int. \<bar>y - x\<bar> \<le> \<bar>of_int j * 2 powi k - x\<bar>)"
proof -
  define a where "a = \<bar>x\<bar>"
  define e where "e = double_exponent a 2045"
  define u where "u = a / 2 powi e"
  define m where "m = round_half_even u"
  define y :: rat where "y = of_int m * 2 powi e"
  have ek: "e \<le> k"
    unfolding e_def using k(1) x by (intro double_exponent_le) (simp_all add: a_def)
  have pe: "0 < (2::rat) powi e" by simp
  have au: "a = u * 2 powi e" unfolding u_def using pe by simp
  have a0: "0 \<le> a" unfolding a_def by simp
  have near: "\<bar>y - a\<bar> \<le> \<bar>of_int j * 2 powi e - a\<bar>" for j :: int
  proof -
    have "\<bar>y - a\<bar> = \<bar>of_int m - u\<bar> * 2 powi e"
      unfolding y_def au using pe by (simp add: abs_mult flip: left_diff_distrib)
    also have "\<dots> \<le> \<bar>of_int j - u\<bar> * 2 powi e"
      unfolding m_def using pe round_half_even_nearest [of u j]
      by (intro mult_right_mono) simp_all
    also have "\<dots> = \<bar>of_int j * 2 powi e - a\<bar>"
      unfolding au using pe by (simp add: abs_mult flip: left_diff_distrib)
    finally show ?thesis .
  qed
  have grid: "(of_int j :: rat) * 2 powi k = of_int (j * 2 ^ nat (k - e)) * 2 powi e"
    for j :: int
    unfolding two_powi_split [OF ek] by simp
  have y0: "0 \<le> y"
  proof -
    have "0 \<le> u" unfolding u_def using a0 pe by simp
    then have "0 \<le> \<lfloor>u\<rfloor>" by simp
    with round_half_even_cases [of u] have "0 \<le> m" unfolding m_def by linarith
    then show ?thesis unfolding y_def using pe by simp
  qed
  have top: "y \<le> 2 powi (k + 53)"
  proof -
    have e53: "e \<le> k + 53" using ek by simp
    have t: "(2::rat) powi (k + 53) = of_int (2 ^ nat (k + 53 - e)) * 2 powi e"
      by (rule two_powi_split [OF e53])
    have "u * 2 powi e < of_int (2 ^ nat (k + 53 - e)) * 2 powi e"
      using x unfolding t a_def [symmetric] au .
    then have "u < of_int (2 ^ nat (k + 53 - e))"
      using pe by (simp only: mult_less_cancel_right_pos)
    then have "\<lfloor>u\<rfloor> < 2 ^ nat (k + 53 - e)"
      by (simp only: floor_less_iff)
    with round_half_even_cases [of u] have "m \<le> 2 ^ nat (k + 53 - e)"
      unfolding m_def by linarith
    then have "(of_int m :: rat) \<le> of_int (2 ^ nat (k + 53 - e))"
      by (simp only: of_int_le_iff)
    then have "(of_int m :: rat) * 2 powi e \<le> of_int (2 ^ nat (k + 53 - e)) * 2 powi e"
      using pe by (intro mult_right_mono) simp_all
    then show ?thesis unfolding y_def t .
  qed
  have "(2::rat) powi (k + 53) \<le> 2 powi 1023"
    using k(2) by (intro two_powi_mono) simp
  also have "(2::rat) powi 1023 < 2 powi 1024"
    by (intro power_int_strict_increasing) simp_all
  finally have fin: "\<not> 2 powi 1024 \<le> y" using top by simp
  have val: "round_double x = Num (if 0 \<le> x then y else - y)"
    using fin unfolding round_double_def Let_def y_def m_def u_def e_def a_def by simp
  show ?thesis
  proof (intro exI conjI allI)
    show "round_double x = Num (if 0 \<le> x then y else - y)" by (rule val)
    fix j :: int
    show "\<bar>(if 0 \<le> x then y else - y) - x\<bar> \<le> \<bar>of_int j * 2 powi k - x\<bar>"
    proof (cases "0 \<le> x")
      case True
      then have "a = x" unfolding a_def by simp
      with near [of "j * 2 ^ nat (k - e)"] True show ?thesis
        unfolding grid by simp
    next
      case False
      then have ax: "x = - a" unfolding a_def by simp
      have "\<bar>- y - x\<bar> = \<bar>y - a\<bar>" unfolding ax by simp
      also have "\<dots> \<le> \<bar>of_int (- j * 2 ^ nat (k - e)) * 2 powi e - a\<bar>"
        by (rule near)
      also have "\<dots> = \<bar>of_int (- j) * 2 powi k - a\<bar>"
        unfolding grid ..
      also have "\<dots> = \<bar>of_int j * 2 powi k - x\<bar>"
        unfolding ax by simp
      finally show ?thesis using False by simp
    qed
  qed
qed


lemma round_double_exact:
  assumes "\<bar>m\<bar> < 2 ^ 53" "- 1074 \<le> k" "k \<le> 970"
  shows "round_double (of_int m * 2 powi k) = Num (of_int m * 2 powi k)"
proof -
  let ?x = "of_int m * 2 powi k :: rat"
  have "(of_int \<bar>m\<bar> :: rat) < of_int (2 ^ 53)"
    using assms(1) by (simp only: of_int_less_iff)
  then have "\<bar>of_int m :: rat\<bar> * 2 powi k < 2 ^ 53 * 2 powi k"
    by (intro mult_strict_right_mono) simp_all
  also have "(2::rat) ^ 53 * 2 powi k = 2 powi (k + 53)"
    by (simp add: power_int_add)
  finally have "\<bar>?x\<bar> < 2 powi (k + 53)"
    by (simp add: abs_mult)
  from round_double_grid [OF assms(2,3) this] obtain y where
    y: "round_double ?x = Num y" and n: "\<forall>j::int. \<bar>y - ?x\<bar> \<le> \<bar>of_int j * 2 powi k - ?x\<bar>"
    by blast
  from n have "\<bar>y - ?x\<bar> \<le> \<bar>of_int m * 2 powi k - ?x\<bar>" by blast
  then have "y = ?x" by simp
  with y show ?thesis by simp
qed

lemma round_double_int:
  "\<bar>n\<bar> < 2 ^ 53 \<Longrightarrow> round_double (of_int n) = Num (of_int n)"
  using round_double_exact [of n 0] by simp

lemma round_double_quarters:
  "\<bar>n\<bar> < 2 ^ 53 \<Longrightarrow> round_double (of_int n / 4) = Num (of_int n / 4)"
  using round_double_exact [of n "- 2"] by (simp add: power_int_minus_divide)

lemma round_double_eighths:
  "\<bar>n\<bar> < 2 ^ 53 \<Longrightarrow> round_double (of_int n / 8) = Num (of_int n / 8)"
  using round_double_exact [of n "- 3"] by (simp add: power_int_minus_divide)

lemma round_double_sixteenths:
  "\<bar>n\<bar> < 2 ^ 53 \<Longrightarrow> round_double (of_int n / 16) = Num (of_int n / 16)"
  using round_double_exact [of n "- 4"] by (simp add: power_int_minus_divide)

text \<open>Below \<open>2 ^ 53\<close> the rounded number lies between the floor and the ceiling.\<close>

lemma round_double_between:
  assumes "\<bar>x\<bar> < 2 ^ 53"
  shows "\<exists>y. round_double x = Num y \<and> of_int \<lfloor>x\<rfloor> \<le> y \<and> y \<le> of_int \<lceil>x\<rceil>"
proof -
  from assms have "\<bar>x\<bar> < 2 powi (0 + 53)" by simp
  from round_double_grid [OF _ _ this] obtain y where
    y: "round_double x = Num y" and n: "\<forall>j::int. \<bar>y - x\<bar> \<le> \<bar>of_int j * 2 powi 0 - x\<bar>"
    by auto
  from n have "\<bar>y - x\<bar> \<le> \<bar>of_int \<lfloor>x\<rfloor> * 2 powi 0 - x\<bar>"
    "\<bar>y - x\<bar> \<le> \<bar>of_int \<lceil>x\<rceil> * 2 powi 0 - x\<bar>"
    by blast+
  then have "\<bar>y - x\<bar> \<le> \<bar>of_int \<lfloor>x\<rfloor> - x\<bar>" "\<bar>y - x\<bar> \<le> \<bar>of_int \<lceil>x\<rceil> - x\<bar>"
    by (simp_all only: power_int_0_right mult_1_right)
  moreover have "of_int \<lfloor>x\<rfloor> \<le> x" "x \<le> of_int \<lceil>x\<rceil>" by linarith+
  ultimately have "of_int \<lfloor>x\<rfloor> \<le> y \<and> y \<le> of_int \<lceil>x\<rceil>" by linarith
  with y show ?thesis by blast
qed

text \<open>Below \<open>2 powi (k + 53)\<close> the rounding error is at most half of \<open>2 powi k\<close>.\<close>

lemma round_double_error:
  assumes "- 1074 \<le> k" "k \<le> 970" "\<bar>x\<bar> < 2 powi (k + 53)"
  shows "\<exists>y. round_double x = Num y \<and> \<bar>y - x\<bar> \<le> 2 powi k / 2"
proof -
  from round_double_grid [OF assms] obtain y where
    y: "round_double x = Num y" and n: "\<forall>j::int. \<bar>y - x\<bar> \<le> \<bar>of_int j * 2 powi k - x\<bar>"
    by blast
  have p: "0 < (2::rat) powi k" by simp
  let ?j = "round (x / 2 powi k)"
  have "of_int ?j * 2 powi k - x = (of_int ?j - x / 2 powi k) * 2 powi k"
    using p by (simp add: left_diff_distrib)
  then have "\<bar>of_int ?j * 2 powi k - x\<bar> = \<bar>of_int ?j - x / 2 powi k\<bar> * \<bar>2 powi k\<bar>"
    by (simp only: abs_mult)
  then have e1: "\<bar>of_int ?j * 2 powi k - x\<bar> = \<bar>of_int ?j - x / 2 powi k\<bar> * 2 powi k"
    by simp
  have e2: "\<bar>of_int ?j - x / 2 powi k\<bar> * 2 powi k \<le> 1 / 2 * 2 powi k"
    using p of_int_round_abs_le [of "x / 2 powi k"] by (intro mult_right_mono) simp_all
  from e1 e2 have "\<bar>of_int ?j * 2 powi k - x\<bar> \<le> 2 powi k / 2" by simp
  with n have "\<bar>y - x\<bar> \<le> 2 powi k / 2" by (meson order_trans)
  with y show ?thesis by blast
qed

text \<open>The value of a rounding, given the binade of a positive number.\<close>

lemma round_double_value:
  assumes k: "- 1074 \<le> k" "k \<le> 970"
    and lo: "2 powi (k + 52) \<le> x" and hi: "x < 2 powi (k + 53)"
    and r: "round_half_even (x / 2 powi k) = m"
  shows "round_double x = Num (of_int m * 2 powi k)"
proof -
  have p: "0 < (2::rat) powi (k + 52)" by simp
  from p lo have x0: "0 < x" by (rule less_le_trans)
  then have ax: "\<bar>x\<bar> = x" by simp
  have e: "double_exponent x 2045 = k"
    using double_exponent_le [OF k(1) hi] double_exponent_ge [OF k(2) lo hi] by simp
  from round_double_grid [OF k, of x] hi ax obtain y where y: "round_double x = Num y"
    by auto
  then have "y = of_int m * 2 powi k"
    unfolding round_double_def Let_def ax e r using x0
    by (simp split: if_splits)
  with y show ?thesis by simp
qed

lemma round_double_eval:
  assumes "- 1074 \<le> k" "k \<le> 970"
    and "2 powi (k + 52) \<le> x" and "x < 2 powi (k + 53)"
    and m: "\<bar>of_int m - x / 2 powi k\<bar> < 1 / 2"
  shows "round_double x = Num (of_int m * 2 powi k)"
  using assms(1-4) round_half_even_close [OF m] by (rule round_double_value)

lemma round_half_even_tie:
  assumes "y = of_int f + 1 / 2" "even f"
  shows "round_half_even y = f"
proof -
  have "\<lfloor>y\<rfloor> = f" unfolding assms(1) by linarith
  then show ?thesis
    unfolding round_half_even_def Let_def using assms by simp
qed

lemma round_double_tie:
  assumes "- 1074 \<le> k" "k \<le> 970"
    and "2 powi (k + 52) \<le> x" and "x < 2 powi (k + 53)"
    and m: "x / 2 powi k = of_int m + 1 / 2" "even m"
  shows "round_double x = Num (of_int m * 2 powi k)"
  using assms(1-4) round_half_even_tie [OF m] by (rule round_double_value)

lemma round_half_even_tie_odd:
  assumes "y = of_int f + 1 / 2" "odd f"
  shows "round_half_even y = f + 1"
proof -
  have "\<lfloor>y\<rfloor> = f" unfolding assms(1) by linarith
  then show ?thesis
    unfolding round_half_even_def Let_def using assms by simp
qed

lemma round_double_tie_odd:
  assumes "- 1074 \<le> k" "k \<le> 970"
    and "2 powi (k + 52) \<le> x" and "x < 2 powi (k + 53)"
    and m: "x / 2 powi k = of_int m + 1 / 2" "odd m"
  shows "round_double x = Num (of_int (m + 1) * 2 powi k)"
  using assms(1-4) round_half_even_tie_odd [OF m] by (rule round_double_value)

section \<open>Basal metabolic rate\<close>

text \<open>A quarter of an integer below \<open>2 ^ 53\<close> is a double, and so is the integer.\<close>

lemma round_double_on_quarters:
  assumes "x = of_int n / 4" "\<bar>n\<bar> < 2 ^ 53"
  shows "round_double x = Num x"
  unfolding assms(1) using assms(2) by (rule round_double_quarters)

lemma round_double_on_ints:
  assumes "x = of_int n" "\<bar>n\<bar> < 2 ^ 53"
  shows "round_double x = Num x"
  unfolding assms(1) using assms(2) by (rule round_double_int)

lemma calculateBMR_integers:
  fixes w h a :: int
  assumes "\<bar>w\<bar> \<le> 2 ^ 46" "\<bar>h\<bar> \<le> 2 ^ 46" "\<bar>a\<bar> \<le> 2 ^ 46"
  shows "calculateBMR (Num (of_int w)) (Num (of_int h)) (Num (of_int a)) sex =
     Num (of_int (round (10 * of_int w + 6.25 * of_int h - 5 * of_int a
                    + (if sex = ''male'' then 5 else - 161) :: rat)))"
proof -
  let ?w = "of_int w :: rat" and ?h = "of_int h :: rat" and ?a = "of_int a :: rat"
  from assms have b: "\<bar>w\<bar> \<le> 70368744177664" "\<bar>h\<bar> \<le> 70368744177664" "\<bar>a\<bar> \<le> 70368744177664"
    by simp_all
  have m1: "round_double (10 * ?w) = Num (10 * ?w)"
    by (rule round_double_on_ints [of _ "10 * w"]) (use b in simp_all)
  have m2: "round_double (6.25 * ?h) = Num (6.25 * ?h)"
    by (rule round_double_on_quarters [of _ "25 * h"]) (use b in simp_all)
  have m3: "round_double (5 * ?a) = Num (5 * ?a)"
    by (rule round_double_on_ints [of _ "5 * a"]) (use b in simp_all)
  have s1: "round_double (10 * ?w + 6.25 * ?h) = Num (10 * ?w + 6.25 * ?h)"
    by (rule round_double_on_quarters [of _ "40 * w + 25 * h"]) (use b in simp_all)
  have s2: "round_double (10 * ?w + 6.25 * ?h + - (5 * ?a)) = Num (10 * ?w + 6.25 * ?h + - (5 * ?a))"
    by (rule round_double_on_quarters [of _ "40 * w + 25 * h - 20 * a"]) (use b in simp_all)
  have s3: "round_double (10 * ?w + 6.25 * ?h + - (5 * ?a) + 5) = Num (10 * ?w + 6.25 * ?h + - (5 * ?a) + 5)"
    by (rule round_double_on_quarters [of _ "40 * w + 25 * h - 20 * a + 20"]) (use b in simp_all)
  have s4: "round_double (10 * ?w + 6.25 * ?h + - (5 * ?a) + - 161) = Num (10 * ?w + 6.25 * ?h + - (5 * ?a) + - 161)"
    by (rule round_double_on_quarters [of _ "40 * w + 25 * h - 20 * a - 644"]) (use b in simp_all)
  have v: "calculateBMR (Num ?w) (Num ?h) (Num ?a) sex =
      Math_round (Num (10 * ?w + 6.25 * ?h + - (5 * ?a) + (if sex = ''male'' then 5 else - 161)))"
    unfolding calculateBMR_def Let_def js_sub_def
    by (simp only: js_mul.simps js_add.simps js_neg.simps m1 m2 m3 s1 s2 s3 s4 if_distrib
        split: if_splits) simp
  show ?thesis unfolding v by (simp add: round_def)
qed


lemma Math_round_of_int: "Math_round (Num (of_int n)) = Num (of_int n)"
proof -
  have "\<lfloor>(of_int n :: rat) + 1 / 2\<rfloor> = n" by linarith
  then show ?thesis by simp
qed

text \<open>
  C1 (as amended). For all integers weight, height and age of magnitude at most
  \<open>2 ^ 46\<close> and every sex string, \<open>calculateBMR\<close> returns the Mifflin-St Jeor value
  \<open>10 * weight + 6.25 * height - 5 * age + k\<close> rounded to the nearest integer (at most
  one half away from it), where \<open>k\<close> is \<open>5\<close> for the string \<open>male\<close> and \<open>-161\<close> for
  every other string. For all numbers, \<open>female\<close> and an unrecognised string give the
  same result.
\<close>

theorem calculateBMR_mifflin_st_jeor:
  fixes w h a :: int
  assumes "\<bar>w\<bar> \<le> 2 ^ 46" "\<bar>h\<bar> \<le> 2 ^ 46" "\<bar>a\<bar> \<le> 2 ^ 46"
  shows "calculateBMR (Num (of_int w)) (Num (of_int h)) (Num (of_int a)) sex =
       Num (of_int (round (10 * of_int w + 6.25 * of_int h - 5 * of_int a
                      + (if sex = ''male'' then 5 else - 161) :: rat)))
     \<and> \<bar>of_int (round (10 * of_int w + 6.25 * of_int h - 5 * of_int a
                      + (if sex = ''male'' then 5 else - 161) :: rat))
          - (10 * of_int w + 6.25 * of_int h - 5 * of_int a
               + (if sex = ''male'' then 5 else - 161) :: rat)\<bar> \<le> 1 / 2
     \<and> calculateBMR x y z ''female'' = calculateBMR x y z ''other''"
proof (intro conjI)
  show "calculateBMR (Num (of_int w)) (Num (of_int h)) (Num (of_int a)) sex =
       Num (of_int (round (10 * of_int w + 6.25 * of_int h - 5 * of_int a
                      + (if sex = ''male'' then 5 else - 161) :: rat)))"
    using assms by (rule calculateBMR_integers)
  show "\<bar>of_int (round (10 * of_int w + 6.25 * of_int h - 5 * of_int a
                      + (if sex = ''male'' then 5 else - 161) :: rat))
          - (10 * of_int w + 6.25 * of_int h - 5 * of_int a
               + (if sex = ''male'' then 5 else - 161) :: rat)\<bar> \<le> 1 / 2"
    by (rule of_int_round_abs_le)
  show "calculateBMR x y z ''female'' = calculateBMR x y z ''other''"
    by (simp add: calculateBMR_def)
qed

lemma round_1626_5: "round (10 * 80 + 6.25 * 182 - 5 * 30 + - 161 :: rat) = 1627"
  by (rule round_unique) simp_all

theorem calculateBMR_mifflin_st_jeor_witness:
  "\<bar>80 :: int\<bar> \<le> 2 ^ 46 \<and> \<bar>182 :: int\<bar> \<le> 2 ^ 46 \<and> \<bar>30 :: int\<bar> \<le> 2 ^ 46
   \<and> calculateBMR (Num 80) (Num 182) (Num 30) ''female'' = Num 1627"
proof -
  have b: "\<bar>80 :: int\<bar> \<le> 2 ^ 46" "\<bar>182 :: int\<bar> \<le> 2 ^ 46" "\<bar>30 :: int\<bar> \<le> 2 ^ 46"
    by simp_all
  from calculateBMR_mifflin_st_jeor [OF b, where sex = "''female''", THEN conjunct1]
  have "calculateBMR (Num 80) (Num 182) (Num 30) ''female'' =
      Num (of_int (round (10 * 80 + 6.25 * 182 - 5 * 30 + - 161 :: rat)))"
    by simp
  then show ?thesis unfolding round_1626_5 using b by simp
qed

lemma calculateBMR_male:
  "calculateBMR x y z ''male'' =
     Math_round (js_add (js_sub (js_add (js_mul (Num 10) x) (js_mul (Num 6.25) y))
                                (js_mul (Num 5) z)) (Num 5))"
  by (simp add: calculateBMR_def)

lemma round_exact_bmr: "round (10 * 9007199254740992 + 6.25 * 1 - 5 * 0 + 5 :: rat) = 90071992547409931"
  by (rule round_unique) simp_all

text \<open>
  At the weight \<open>2 ^ 53\<close>, height 1 and age 0 the doubles of the sum round away the
  \<open>6.25 + 5\<close>: the function returns 90071992547409920, the rounded Mifflin-St Jeor
  value is 90071992547409931.
\<close>

theorem calculateBMR_large_weight_counterexample:
  "calculateBMR (Num 9007199254740992) (Num 1) (Num 0) ''male'' = Num 90071992547409920
   \<and> round (10 * 9007199254740992 + 6.25 * 1 - 5 * 0 + 5 :: rat) = 90071992547409931"
proof
  have a1: "js_mul (Num 10) (Num 9007199254740992) = Num 90071992547409920"
    using round_double_eval [of 4 "90071992547409920" 5629499534213120] by simp
  have a2: "js_mul (Num 6.25) (Num 1) = Num 6.25"
    using round_double_quarters [of 25] by simp
  have a3: "js_add (Num 90071992547409920) (Num 6.25) = Num 90071992547409920"
    using round_double_eval [of 4 "90071992547409920 + 6.25" 5629499534213120] by simp
  have a4: "js_mul (Num 5) (Num 0) = Num 0"
    using round_double_int [of 0] by simp
  have a5: "js_sub (Num 90071992547409920) (Num 0) = Num 90071992547409920"
    using round_double_eval [of 4 "90071992547409920" 5629499534213120]
    by (simp add: js_sub_def)
  have a6: "js_add (Num 90071992547409920) (Num 5) = Num 90071992547409920"
    using round_double_eval [of 4 "90071992547409920 + 5" 5629499534213120] by simp
  have a7: "Math_round (Num 90071992547409920) = Num 90071992547409920"
    using Math_round_of_int [of 90071992547409920] by simp
  show "calculateBMR (Num 9007199254740992) (Num 1) (Num 0) ''male'' = Num 90071992547409920"
    unfolding calculateBMR_male a1 a2 a3 a4 a5 a6 a7 ..
  show "round (10 * 9007199254740992 + 6.25 * 1 - 5 * 0 + 5 :: rat) = 90071992547409931"
    by (rule round_exact_bmr)
qed

lemma round_exact_fraction_bmr:
  "round (10 * double_40_05 + 6.25 * 180 - 5 * 30 + 5) = 1380"
  unfolding double_40_05_def by (rule round_unique) simp_all

text \<open>
  Off the integers the function is not the rounded Mifflin-St Jeor value either: at
  the weight \<^verbatim>\<open>40.05\<close>, height 180 and age 30 the product \<^verbatim>\<open>10 * weight\<close> is rounded up
  to 400.5, and the function returns 1381 where the formula rounds to 1380.
\<close>

lemma calculateBMR_fraction_example:
  "calculateBMR (Num double_40_05) (Num 180) (Num 30) ''male'' = Num 1381
   \<and> round (10 * double_40_05 + 6.25 * 180 - 5 * 30 + 5) = 1380"
proof
  have a1: "js_mul (Num 10) (Num double_40_05) = Num 400.5"
    using round_double_tie_odd [of "- 44" "10 * double_40_05" 7045670510788607]
    by (simp add: double_40_05_def)
  have a2: "js_mul (Num 6.25) (Num 180) = Num 1125"
    using round_double_int [of 1125] by simp
  have a3: "js_add (Num 400.5) (Num 1125) = Num 1525.5"
    using round_double_quarters [of 6102] by simp
  have a4: "js_mul (Num 5) (Num 30) = Num 150"
    using round_double_int [of 150] by simp
  have a5: "js_sub (Num 1525.5) (Num 150) = Num 1375.5"
    using round_double_quarters [of 5502] by (simp add: js_sub_def)
  have a6: "js_add (Num 1375.5) (Num 5) = Num 1380.5"
    using round_double_quarters [of 5522] by simp
  have a7: "Math_round (Num 1380.5) = Num 1381"
    by simp
  show "calculateBMR (Num double_40_05) (Num 180) (Num 30) ''male'' = Num 1381"
    unfolding calculateBMR_male a1 a2 a3 a4 a5 a6 a7 ..
  show "round (10 * double_40_05 + 6.25 * 180 - 5 * 30 + 5) = 1380"
    by (rule round_exact_fraction_bmr)
qed

section \<open>The daily goal\<close>

lemma calculateExerciseAdjustment_integers:
  fixes t l :: int
  assumes "\<bar>t * l\<bar> < 2 ^ 53"
  shows "calculateExerciseAdjustment (Num (of_int t)) (Num (of_int l)) = Num (of_int (t * l))"
proof -
  have "round_double (of_int t * of_int l) = Num (of_int (t * l))"
    using round_double_int [OF assms] by simp
  then show ?thesis
    unfolding calculateExerciseAdjustment_def
    by (simp only: js_mul.simps Math_round_of_int)
qed

lemma abs_mult_bound:
  fixes t l :: int
  assumes "\<bar>t\<bar> \<le> B" "\<bar>l\<bar> \<le> B"
  shows "\<bar>t * l\<bar> \<le> B * B"
proof -
  have "\<bar>t\<bar> * \<bar>l\<bar> \<le> B * B"
    using assms by (intro mult_mono) simp_all
  then show ?thesis by (simp only: abs_mult)
qed

lemma handleCalorieGoal_goal:
  "finalDailyGoal (snd (handleCalorieGoal st form)) =
     js_add (calculateBMR (weight_field form) (height_field form) (age_field form) (sex_field form))
            (calculateExerciseAdjustment (training_time_field form) (training_level_field form))"
  by (simp add: handleCalorieGoal_def Let_def)

lemma handleCalorieGoal_stored:
  "dailyCalorieGoal (fst (handleCalorieGoal st form)) =
     Some (finalDailyGoal (snd (handleCalorieGoal st form)))"
  by (simp add: handleCalorieGoal_def Let_def)

lemma round_abs_bound:
  fixes x :: rat
  assumes "\<bar>x\<bar> \<le> of_int c"
  shows "\<bar>round x\<bar> \<le> c + 1"
proof -
  have "\<bar>of_int (round x) - x\<bar> \<le> 1 / 2" by (rule of_int_round_abs_le)
  with assms have "\<bar>of_int (round x) :: rat\<bar> \<le> of_int c + 1" by linarith
  then have "(of_int \<bar>round x\<bar> :: rat) \<le> of_int (c + 1)" by simp
  then show ?thesis by (simp only: of_int_le_iff)
qed

text \<open>The size of the rounded value for fields of magnitude at most \<open>2 ^ 25\<close>.\<close>

lemma bmr_bound:
  fixes w h a :: int
  assumes "\<bar>w\<bar> \<le> 2 ^ 25" "\<bar>h\<bar> \<le> 2 ^ 25" "\<bar>a\<bar> \<le> 2 ^ 25"
  shows "\<bar>round (10 * of_int w + 6.25 * of_int h - 5 * of_int a
                  + (if sex = ''male'' then 5 else - 161) :: rat)\<bar> < 2 ^ 30"
proof -
  define k :: rat where "k = (if sex = ''male'' then 5 else - 161)"
  define F :: rat where "F = 10 * of_int w + 6.25 * of_int h - 5 * of_int a + k"
  have k: "\<bar>k\<bar> \<le> 161" unfolding k_def by simp
  from assms have "(of_int \<bar>w\<bar> :: rat) \<le> of_int (2 ^ 25)" "(of_int \<bar>h\<bar> :: rat) \<le> of_int (2 ^ 25)"
    "(of_int \<bar>a\<bar> :: rat) \<le> of_int (2 ^ 25)"
    by (simp_all only: of_int_le_iff)
  then have "\<bar>of_int w :: rat\<bar> \<le> 33554432" "\<bar>of_int h :: rat\<bar> \<le> 33554432"
    "\<bar>of_int a :: rat\<bar> \<le> 33554432"
    by simp_all
  with k have "\<bar>F\<bar> \<le> 738197665" unfolding F_def by simp
  then have "\<bar>F\<bar> \<le> of_int 738197665" by simp
  then have "\<bar>round F\<bar> \<le> 738197665 + 1" by (rule round_abs_bound)
  then show ?thesis unfolding F_def k_def by simp
qed


lemma goal_of_integer_fields:
  fixes a h w t l :: int
  assumes "\<bar>a\<bar> \<le> 2 ^ 25" "\<bar>h\<bar> \<le> 2 ^ 25" "\<bar>w\<bar> \<le> 2 ^ 25" "\<bar>t\<bar> \<le> 2 ^ 25" "\<bar>l\<bar> \<le> 2 ^ 25"
  shows "js_add (calculateBMR (Num (of_int w)) (Num (of_int h)) (Num (of_int a)) sex)
                (calculateExerciseAdjustment (Num (of_int t)) (Num (of_int l))) =
         Num (of_int (round (10 * of_int w + 6.25 * of_int h - 5 * of_int a
                        + (if sex = ''male'' then 5 else - 161) :: rat) + t * l))"
proof -
  let ?R = "round (10 * of_int w + 6.25 * of_int h - 5 * of_int a
                        + (if sex = ''male'' then 5 else - 161) :: rat)"
  have big: "(2::int) ^ 25 \<le> 2 ^ 46" by simp
  have b: "calculateBMR (Num (of_int w)) (Num (of_int h)) (Num (of_int a)) sex = Num (of_int ?R)"
    using assms(1-3) big by (intro calculateBMR_integers) linarith+
  have tl: "\<bar>t * l\<bar> \<le> 2 ^ 25 * 2 ^ 25"
    using assms(4,5) by (rule abs_mult_bound)
  then have "\<bar>t * l\<bar> < 2 ^ 53" by simp
  then have e: "calculateExerciseAdjustment (Num (of_int t)) (Num (of_int l)) = Num (of_int (t * l))"
    by (rule calculateExerciseAdjustment_integers)
  have R: "\<bar>?R\<bar> < 2 ^ 30"
    using assms(3,2,1) by (rule bmr_bound)
  from R tl have "\<bar>?R + t * l\<bar> < 2 ^ 53" by simp
  then have "round_double (of_int (?R + t * l)) = Num (of_int (?R + t * l))"
    by (rule round_double_int)
  then have "round_double (of_int ?R + of_int (t * l)) = Num (of_int (?R + t * l))"
    by (simp only: of_int_add)
  then show ?thesis unfolding b e by (simp only: js_add.simps)
qed

text \<open>
  C2 (as amended). On a form whose age, height, weight, training time and training
  level are integers of magnitude at most \<open>2 ^ 25\<close>, the daily goal that
  \<open>handleCalorieGoal\<close> shows and stores is the integer sum of \<open>calculateBMR\<close> and
  \<open>calculateExerciseAdjustment\<close>, with no rounding after the addition, and neither
  the goal weight nor the weekly loss rate enters it (no deficit is applied).
  \<open>calculateExerciseAdjustment\<close> is the rounded product of duration and multiplier,
  which is the product itself.
\<close>

theorem daily_goal_is_bmr_plus_exercise:
  fixes a h w t l :: int
  assumes "\<bar>a\<bar> \<le> 2 ^ 25" "\<bar>h\<bar> \<le> 2 ^ 25" "\<bar>w\<bar> \<le> 2 ^ 25" "\<bar>t\<bar> \<le> 2 ^ 25" "\<bar>l\<bar> \<le> 2 ^ 25"
  shows "finalDailyGoal (snd (handleCalorieGoal st
        \<lparr>age_field = Num (of_int a), height_field = Num (of_int h),
         weight_field = Num (of_int w), sex_field = sex,
         training_time_field = Num (of_int t), training_level_field = Num (of_int l),
         goal_weight_field = gw, weekly_loss_rate_field = rate\<rparr>)) =
       Num (of_int
         (round (10 * of_int w + 6.25 * of_int h - 5 * of_int a
                   + (if sex = ''male'' then 5 else - 161) :: rat) + t * l))
   \<and> dailyCalorieGoal (fst (handleCalorieGoal st
        \<lparr>age_field = Num (of_int a), height_field = Num (of_int h),
         weight_field = Num (of_int w), sex_field = sex,
         training_time_field = Num (of_int t), training_level_field = Num (of_int l),
         goal_weight_field = gw, weekly_loss_rate_field = rate\<rparr>)) =
       Some (Num (of_int
         (round (10 * of_int w + 6.25 * of_int h - 5 * of_int a
                   + (if sex = ''male'' then 5 else - 161) :: rat) + t * l)))
   \<and> calculateBMR (Num (of_int w)) (Num (of_int h)) (Num (of_int a)) sex =
       Num (of_int (round (10 * of_int w + 6.25 * of_int h - 5 * of_int a
                   + (if sex = ''male'' then 5 else - 161) :: rat)))
   \<and> calculateExerciseAdjustment (Num (of_int t)) (Num (of_int l)) =
       Num (of_int (round (of_int t * of_int l :: rat)))
   \<and> round (of_int t * of_int l :: rat) = t * l"
proof (intro conjI)
  let ?form = "\<lparr>age_field = Num (of_int a), height_field = Num (of_int h),
         weight_field = Num (of_int w), sex_field = sex,
         training_time_field = Num (of_int t), training_level_field = Num (of_int l),
         goal_weight_field = gw, weekly_loss_rate_field = rate\<rparr>"
  let ?G = "round (10 * of_int w + 6.25 * of_int h - 5 * of_int a
                   + (if sex = ''male'' then 5 else - 161) :: rat) + t * l"
  show goal: "finalDailyGoal (snd (handleCalorieGoal st ?form)) = Num (of_int ?G)"
    unfolding handleCalorieGoal_goal
    by (simp only: goal_form.simps goal_of_integer_fields [OF assms])
  show "dailyCalorieGoal (fst (handleCalorieGoal st ?form)) = Some (Num (of_int ?G))"
    unfolding handleCalorieGoal_stored goal ..
  have big: "(2::int) ^ 25 \<le> 2 ^ 46" by simp
  show "calculateBMR (Num (of_int w)) (Num (of_int h)) (Num (of_int a)) sex =
       Num (of_int (round (10 * of_int w + 6.25 * of_int h - 5 * of_int a
                   + (if sex = ''male'' then 5 else - 161) :: rat)))"
    using assms(1-3) big by (intro calculateBMR_integers) linarith+
  have r: "round (of_int t * of_int l :: rat) = t * l"
    by (simp flip: of_int_mult)
  then show "round (of_int t * of_int l :: rat) = t * l" .
  have "\<bar>t * l\<bar> \<le> 2 ^ 25 * 2 ^ 25"
    using assms(4,5) by (rule abs_mult_bound)
  then have "\<bar>t * l\<bar> < 2 ^ 53" by simp
  then show "calculateExerciseAdjustment (Num (of_int t)) (Num (of_int l)) =
       Num (of_int (round (of_int t * of_int l :: rat)))"
    unfolding r by (rule calculateExerciseAdjustment_integers)
qed

lemma round_female_example: "round (10 * 70 + 6.25 * 175 - 5 * 30 + - 161 :: rat) = 1483"
  by (rule round_unique) simp_all

theorem daily_goal_is_bmr_plus_exercise_witness:
  "\<bar>30 :: int\<bar> \<le> 2 ^ 25 \<and> \<bar>175 :: int\<bar> \<le> 2 ^ 25 \<and> \<bar>70 :: int\<bar> \<le> 2 ^ 25
   \<and> \<bar>45 :: int\<bar> \<le> 2 ^ 25 \<and> \<bar>8 :: int\<bar> \<le> 2 ^ 25
   \<and> finalDailyGoal (snd (handleCalorieGoal empty_storage
        \<lparr>age_field = Num 30, height_field = Num 175, weight_field = Num 70,
         sex_field = ''female'', training_time_field = Num 45, training_level_field = Num 8,
         goal_weight_field = Num 65, weekly_loss_rate_field = Num 0.5\<rparr>)) = Num 1843"
proof -
  have b: "\<bar>30 :: int\<bar> \<le> 2 ^ 25" "\<bar>175 :: int\<bar> \<le> 2 ^ 25" "\<bar>70 :: int\<bar> \<le> 2 ^ 25"
    "\<bar>45 :: int\<bar> \<le> 2 ^ 25" "\<bar>8 :: int\<bar> \<le> 2 ^ 25"
    by simp_all
  from daily_goal_is_bmr_plus_exercise [OF b, where sex = "''female''" and st = empty_storage
      and gw = "Num 65" and rate = "Num 0.5", THEN conjunct1]
  have "finalDailyGoal (snd (handleCalorieGoal empty_storage
        \<lparr>age_field = Num 30, height_field = Num 175, weight_field = Num 70,
         sex_field = ''female'', training_time_field = Num 45, training_level_field = Num 8,
         goal_weight_field = Num 65, weekly_loss_rate_field = Num 0.5\<rparr>)) =
      Num (of_int (round (10 * 70 + 6.25 * 175 - 5 * 30 + - 161 :: rat) + 45 * 8))"
    by simp
  then show ?thesis unfolding round_female_example using b by simp
qed

lemma round_male_example: "round (10 * 80 + 6.25 * 180 - 5 * 30 + 5 :: rat) = 1780"
  by (rule round_unique) simp_all

text \<open>
  With a training time of \<open>2 ^ 53\<close> minutes at level 8 (80 kg, 180 cm, 30 years,
  male) the double addition rounds: the goal is 72057594037929712, the integer sum of
  the BMR 1780 and the adjustment \<open>2 ^ 56\<close> is 72057594037929716.
\<close>

theorem daily_goal_large_training_time_counterexample:
  "finalDailyGoal (snd (handleCalorieGoal empty_storage
        \<lparr>age_field = Num 30, height_field = Num 180, weight_field = Num 80,
         sex_field = ''male'', training_time_field = Num 9007199254740992,
         training_level_field = Num 8,
         goal_weight_field = Num 75, weekly_loss_rate_field = Num 0.5\<rparr>)) =
     Num 72057594037929712
   \<and> round (10 * 80 + 6.25 * 180 - 5 * 30 + 5 :: rat) + 9007199254740992 * 8 =
       72057594037929716"
proof
  have b: "\<bar>80 :: int\<bar> \<le> 2 ^ 46" "\<bar>180 :: int\<bar> \<le> 2 ^ 46" "\<bar>30 :: int\<bar> \<le> 2 ^ 46"
    by simp_all
  from calculateBMR_integers [OF b, where sex = "''male''"]
  have "calculateBMR (Num 80) (Num 180) (Num 30) ''male'' =
      Num (of_int (round (10 * 80 + 6.25 * 180 - 5 * 30 + 5 :: rat)))"
    by simp
  then have c1: "calculateBMR (Num 80) (Num 180) (Num 30) ''male'' = Num 1780"
    unfolding round_male_example by simp
  have m: "js_mul (Num 9007199254740992) (Num 8) = Num 72057594037927936"
    using round_double_eval [of 4 "72057594037927936" 4503599627370496] by simp
  have r: "Math_round (Num 72057594037927936) = Num 72057594037927936"
    using Math_round_of_int [of 72057594037927936] by simp
  have c2: "calculateExerciseAdjustment (Num 9007199254740992) (Num 8) = Num 72057594037927936"
    unfolding calculateExerciseAdjustment_def m r ..
  have c3: "js_add (Num 1780) (Num 72057594037927936) = Num 72057594037929712"
    using round_double_eval [of 4 "1780 + 72057594037927936" 4503599627370607] by simp
  show "finalDailyGoal (snd (handleCalorieGoal empty_storage
        \<lparr>age_field = Num 30, height_field = Num 180, weight_field = Num 80,
         sex_field = ''male'', training_time_field = Num 9007199254740992,
         training_level_field = Num 8,
         goal_weight_field = Num 75, weekly_loss_rate_field = Num 0.5\<rparr>)) =
     Num 72057594037929712"
    unfolding handleCalorieGoal_goal
    by (simp only: goal_form.simps c1 c2 c3)
  show "round (10 * 80 + 6.25 * 180 - 5 * 30 + 5 :: rat) + 9007199254740992 * 8 =
       72057594037929716"
    unfolding round_male_example by simp
qed

text \<open>
  Off the integers the adjustment is not the rounded product: \<^verbatim>\<open>0.3 * 5\<close> is 1.5 in
  doubles, which rounds to 2, and the product of the double \<^verbatim>\<open>0.3\<close> and 5 rounds to 1.
\<close>

lemma calculateExerciseAdjustment_fraction_example:
  "calculateExerciseAdjustment (Num double_0_3) (Num 5) = Num 2
   \<and> round (double_0_3 * 5) = 1"
proof
  have a1: "js_mul (Num double_0_3) (Num 5) = Num 1.5"
    using round_double_eval [of "- 52" "double_0_3 * 5" 6755399441055744]
    by (simp add: double_0_3_def)
  have a2: "Math_round (Num 1.5) = Num 2"
    by simp
  show "calculateExerciseAdjustment (Num double_0_3) (Num 5) = Num 2"
    unfolding calculateExerciseAdjustment_def a1 a2 ..
  show "round (double_0_3 * 5) = 1"
    unfolding double_0_3_def by (rule round_unique) simp_all
qed

section \<open>Macro targets\<close>

lemma round_double_halves:
  "\<bar>n\<bar> < 2 ^ 53 \<Longrightarrow> round_double (of_int n / 2) = Num (of_int n / 2)"
  using round_double_exact [of n "- 1"] by (simp add: power_int_minus_divide)

text \<open>The grams of fat: a quotient by 9, which a double holds only nearly.\<close>

lemma fat_grams:
  fixes g :: int
  assumes "\<bar>g\<bar> \<le> 2 ^ 52"
  shows "Math_round (js_div (Num (of_int g / 4)) (Num 9)) = Num (of_int (round (of_int g / 36 :: rat)))"
proof -
  define x :: rat where "x = of_int g / 36"
  define n where "n = round x"
  from assms have "(of_int \<bar>g\<bar> :: rat) \<le> of_int (2 ^ 52)" by (simp only: of_int_le_iff)
  then have g: "\<bar>of_int g :: rat\<bar> \<le> 2 ^ 52" by simp
  then have "\<bar>x\<bar> < 2 ^ 47" unfolding x_def by simp
  then have "\<bar>x\<bar> < 2 powi (- 6 + 53)" by simp
  from round_double_grid [OF _ _ this] obtain y where
    y: "round_double x = Num y" and near: "\<forall>j::int. \<bar>y - x\<bar> \<le> \<bar>of_int j * 2 powi (- 6) - x\<bar>"
    by auto
  have sixty_four: "of_int j * 2 powi (- 6) = (of_int j :: rat) / 64" for j :: int
    by (simp add: power_int_minus_divide)
  have n1: "of_int n \<le> x + 1 / 2" and n2: "x + 1 / 2 < of_int n + 1"
    unfolding n_def round_def by linarith+
  \<comment> \<open>the distance of \<open>x\<close> from the half below \<open>n\<close> is a number of 36ths\<close>
  define d where "d = g + 18 - 36 * n"
  have dx: "of_int d / 36 = x + 1 / 2 - of_int n" unfolding d_def x_def by simp
  from n2 dx have "(of_int d :: rat) < of_int 36" by simp
  then have "d < 36" by (simp only: of_int_less_iff)
  then have "d \<le> 35" by simp
  then have "(of_int d :: rat) \<le> of_int 35" by (simp only: of_int_le_iff)
  then have d35: "x + 1 / 2 - of_int n \<le> 35 / 36" using dx by simp
  \<comment> \<open>the double is no farther from \<open>x\<close> than the half below \<open>n\<close>, and than a 128th\<close>
  have "\<bar>y - x\<bar> \<le> \<bar>of_int (64 * n - 32) * 2 powi (- 6) - x\<bar>"
    using near by blast
  moreover have "(of_int (64 * n - 32) :: rat) * 2 powi (- 6) = of_int n - 1 / 2"
    unfolding sixty_four by simp
  ultimately have c1: "\<bar>y - x\<bar> \<le> \<bar>of_int n - 1 / 2 - x\<bar>"
    by (simp only:)
  have "\<bar>y - x\<bar> \<le> \<bar>of_int (round (64 * x)) * 2 powi (- 6) - x\<bar>"
    using near by blast
  then have "\<bar>y - x\<bar> \<le> \<bar>of_int (round (64 * x)) / 64 - x\<bar>"
    unfolding sixty_four .
  moreover have "\<bar>of_int (round (64 * x)) - 64 * x\<bar> \<le> 1 / 2"
    by (rule of_int_round_abs_le)
  ultimately have c2: "\<bar>y - x\<bar> \<le> 1 / 128" by linarith
  from n1 n2 c1 c2 d35 have "of_int n \<le> y + 1 / 2" "y + 1 / 2 < of_int n + 1"
    by linarith+
  then have "\<lfloor>y + 1 / 2\<rfloor> = n" by linarith
  moreover have "js_div (Num (of_int g / 4)) (Num 9) = Num y"
    using y unfolding x_def by simp
  ultimately show ?thesis unfolding n_def x_def by simp
qed

lemma allocateMacros_integer:
  fixes g :: int
  assumes "\<bar>g\<bar> \<le> 2 ^ 52"
  shows "allocateMacros (Num (of_int g)) =
     \<lparr>gramsCarbs = Num (of_int (round (of_int g * 0.50 / 4 :: rat))),
      gramsProtein = Num (of_int (round (of_int g * 0.25 / 4 :: rat))),
      gramsFat = Num (of_int (round (of_int g * 0.25 / 9 :: rat)))\<rparr>"
proof -
  from assms have b: "\<bar>g\<bar> < 2 ^ 53" by simp
  have h: "js_mul (Num (of_int g)) (Num 0.50) = Num (of_int g / 2)"
    using round_double_halves [OF b] by simp
  have q: "js_mul (Num (of_int g)) (Num 0.25) = Num (of_int g / 4)"
    using round_double_quarters [OF b] by simp
  have c: "js_div (Num (of_int g / 2)) (Num 4) = Num (of_int g / 8)"
    using round_double_eighths [OF b] by simp
  have p: "js_div (Num (of_int g / 4)) (Num 4) = Num (of_int g / 16)"
    using round_double_sixteenths [OF b] by simp
  have rc: "Math_round (Num (of_int g / 8)) = Num (of_int (round (of_int g * 0.50 / 4 :: rat)))"
    by (simp add: round_def)
  have rp: "Math_round (Num (of_int g / 16)) = Num (of_int (round (of_int g * 0.25 / 4 :: rat)))"
    by (simp add: round_def)
  have rf: "Math_round (js_div (Num (of_int g / 4)) (Num 9)) =
      Num (of_int (round (of_int g * 0.25 / 9 :: rat)))"
    using fat_grams [OF assms] by simp
  show ?thesis
    unfolding allocateMacros_def Let_def CAL_PER_GRAM_CARBS_def CAL_PER_GRAM_PROTEIN_def
      CAL_PER_GRAM_FAT_def h q c p rc rp rf ..
qed


lemma handleCalorieGoal_macros:
  "macroTargets (snd (handleCalorieGoal st form)) =
     allocateMacros (finalDailyGoal (snd (handleCalorieGoal st form)))"
  by (simp add: handleCalorieGoal_def Let_def)

lemma round_carbs_2000: "round (2000 * 0.50 / 4 :: rat) = 250"
  by (rule round_unique) simp_all

lemma round_protein_2000: "round (2000 * 0.25 / 4 :: rat) = 125"
  by (rule round_unique) simp_all

lemma round_fat_2000: "round (2000 * 0.25 / 9 :: rat) = 56"
  by (rule round_unique) simp_all

lemma allocateMacros_2000:
  "allocateMacros (Num 2000) =
     \<lparr>gramsCarbs = Num 250, gramsProtein = Num 125, gramsFat = Num 56\<rparr>"
proof -
  have "\<bar>2000 :: int\<bar> \<le> 2 ^ 52" by simp
  from allocateMacros_integer [OF this, unfolded of_int_numeral,
      unfolded round_carbs_2000 round_protein_2000 round_fat_2000]
  show ?thesis by simp
qed

text \<open>
  C3 (as amended). For every integer daily goal of magnitude at most \<open>2 ^ 52\<close> the
  macro targets are \<open>round (goal * 0.50 / 4)\<close> grams of carbohydrates,
  \<open>round (goal * 0.25 / 4)\<close> grams of protein and \<open>round (goal * 0.25 / 9)\<close> grams of
  fat; a goal of 2000 gives 250, 125 and 56. The targets \<open>handleCalorieGoal\<close> shows are
  those of the goal it shows.
\<close>

theorem allocateMacros_grams:
  fixes g :: int
  assumes "\<bar>g\<bar> \<le> 2 ^ 52"
  shows "allocateMacros (Num (of_int g)) =
       \<lparr>gramsCarbs = Num (of_int (round (of_int g * 0.50 / 4 :: rat))),
        gramsProtein = Num (of_int (round (of_int g * 0.25 / 4 :: rat))),
        gramsFat = Num (of_int (round (of_int g * 0.25 / 9 :: rat)))\<rparr>
     \<and> allocateMacros (Num 2000) =
         \<lparr>gramsCarbs = Num 250, gramsProtein = Num 125, gramsFat = Num 56\<rparr>
     \<and> macroTargets (snd (handleCalorieGoal st form)) =
         allocateMacros (finalDailyGoal (snd (handleCalorieGoal st form)))"
  using allocateMacros_integer [OF assms] allocateMacros_2000 handleCalorieGoal_macros
  by (intro conjI)

lemma round_carbs_1843: "round (1843 * 0.50 / 4 :: rat) = 230"
  by (rule round_unique) simp_all

lemma round_protein_1843: "round (1843 * 0.25 / 4 :: rat) = 115"
  by (rule round_unique) simp_all

lemma round_fat_1843: "round (1843 * 0.25 / 9 :: rat) = 51"
  by (rule round_unique) simp_all

theorem allocateMacros_grams_witness:
  "\<bar>1843 :: int\<bar> \<le> 2 ^ 52
   \<and> allocateMacros (Num 1843) =
       \<lparr>gramsCarbs = Num 230, gramsProtein = Num 115, gramsFat = Num 51\<rparr>"
proof -
  have b: "\<bar>1843 :: int\<bar> \<le> 2 ^ 52" by simp
  from allocateMacros_grams [OF b, THEN conjunct1, unfolded of_int_numeral,
      unfolded round_carbs_1843 round_protein_1843 round_fat_1843] b
  show ?thesis by simp
qed

text \<open>The macro targets of the goal \<open>2 ^ 60\<close>.\<close>

lemma allocateMacros_2_60:
  "allocateMacros (Num 1152921504606846976) =
     \<lparr>gramsCarbs = Num 144115188075855872, gramsProtein = Num 72057594037927936,
      gramsFat = Num 32025597350190192\<rparr>"
proof -
  have h: "js_mul (Num 1152921504606846976) (Num 0.50) = Num 576460752303423488"
    using round_double_eval [of 7 "576460752303423488" 4503599627370496] by simp
  have q: "js_mul (Num 1152921504606846976) (Num 0.25) = Num 288230376151711744"
    using round_double_eval [of 6 "288230376151711744" 4503599627370496] by simp
  have c: "js_div (Num 576460752303423488) (Num 4) = Num 144115188075855872"
    using round_double_eval [of 5 "144115188075855872" 4503599627370496] by simp
  have p: "js_div (Num 288230376151711744) (Num 4) = Num 72057594037927936"
    using round_double_eval [of 4 "72057594037927936" 4503599627370496] by simp
  have f: "js_div (Num 288230376151711744) (Num 9) = Num 32025597350190192"
    using round_double_eval [of 2 "288230376151711744 / 9" 8006399337547548] by simp
  have rc: "Math_round (Num 144115188075855872) = Num 144115188075855872"
    using Math_round_of_int [of 144115188075855872] by simp
  have rp: "Math_round (Num 72057594037927936) = Num 72057594037927936"
    using Math_round_of_int [of 72057594037927936] by simp
  have rf: "Math_round (Num 32025597350190192) = Num 32025597350190192"
    using Math_round_of_int [of 32025597350190192] by simp
  show ?thesis
    unfolding allocateMacros_def Let_def CAL_PER_GRAM_CARBS_def CAL_PER_GRAM_PROTEIN_def
      CAL_PER_GRAM_FAT_def h q c p f rc rp rf ..
qed

text \<open>
  At the goal \<open>2 ^ 60\<close> the quotient by 9 is rounded to a double that is a multiple
  of 4: the grams of fat are 32025597350190192, and \<open>round (goal * 0.25 / 9)\<close> is
  32025597350190194.
\<close>

theorem allocateMacros_large_goal_counterexample:
  "gramsFat (allocateMacros (Num 1152921504606846976)) = Num 32025597350190192
   \<and> round (1152921504606846976 * 0.25 / 9 :: rat) = 32025597350190194"
proof
  show "gramsFat (allocateMacros (Num 1152921504606846976)) = Num 32025597350190192"
    unfolding allocateMacros_2_60 by simp
  show "round (1152921504606846976 * 0.25 / 9 :: rat) = 32025597350190194"
    by (rule round_unique) simp_all
qed

lemma macro_sum_bound:
  fixes g :: rat
  shows "\<bar>CAL_PER_GRAM_PROTEIN * of_int (round (g * 0.25 / 4))
         + CAL_PER_GRAM_CARBS * of_int (round (g * 0.50 / 4))
         + CAL_PER_GRAM_FAT * of_int (round (g * 0.25 / 9)) - g\<bar> \<le> 8.5"
proof -
  have p: "\<bar>of_int (round (g * 0.25 / 4)) - g / 16\<bar> \<le> 1 / 2"
    using of_int_round_abs_le [of "g * 0.25 / 4"] by simp
  have c: "\<bar>of_int (round (g * 0.50 / 4)) - g / 8\<bar> \<le> 1 / 2"
    using of_int_round_abs_le [of "g * 0.50 / 4"] by simp
  have f: "\<bar>of_int (round (g * 0.25 / 9)) - g / 36\<bar> \<le> 1 / 2"
    using of_int_round_abs_le [of "g * 0.25 / 9"] by simp
  have "(8.5 :: rat) = 17 / 2" by simp
  with p c f show ?thesis
    unfolding CAL_PER_GRAM_PROTEIN_def CAL_PER_GRAM_CARBS_def CAL_PER_GRAM_FAT_def
    by linarith
qed

text \<open>
  C9 (as amended). For every integer daily goal of magnitude at most \<open>2 ^ 52\<close> the
  macro targets are whole numbers of grams, each at most half a gram away from its
  unrounded value, and their calorie equivalent, 4 per gram of protein, 4 per gram of
  carbohydrates and 9 per gram of fat, differs from the goal by at most 8.5 calories.
\<close>

theorem macro_calories_near_goal:
  fixes g :: int
  assumes "\<bar>g\<bar> \<le> 2 ^ 52"
  shows "\<exists>p c f :: int.
     allocateMacros (Num (of_int g)) =
       \<lparr>gramsCarbs = Num (of_int c), gramsProtein = Num (of_int p), gramsFat = Num (of_int f)\<rparr>
     \<and> \<bar>of_int c - of_int g * 0.50 / 4 :: rat\<bar> \<le> 0.5
     \<and> \<bar>of_int p - of_int g * 0.25 / 4 :: rat\<bar> \<le> 0.5
     \<and> \<bar>of_int f - of_int g * 0.25 / 9 :: rat\<bar> \<le> 0.5
     \<and> \<bar>CAL_PER_GRAM_PROTEIN * of_int p + CAL_PER_GRAM_CARBS * of_int c
          + CAL_PER_GRAM_FAT * of_int f - of_int g\<bar> \<le> 8.5"
proof (intro exI conjI)
  show "allocateMacros (Num (of_int g)) =
       \<lparr>gramsCarbs = Num (of_int (round (of_int g * 0.50 / 4 :: rat))),
        gramsProtein = Num (of_int (round (of_int g * 0.25 / 4 :: rat))),
        gramsFat = Num (of_int (round (of_int g * 0.25 / 9 :: rat)))\<rparr>"
    using assms by (rule allocateMacros_integer)
  have h: "(0.5 :: rat) = 1 / 2" by simp
  show "\<bar>of_int (round (of_int g * 0.50 / 4 :: rat)) - of_int g * 0.50 / 4 :: rat\<bar> \<le> 0.5"
    unfolding h by (rule of_int_round_abs_le)
  show "\<bar>of_int (round (of_int g * 0.25 / 4 :: rat)) - of_int g * 0.25 / 4 :: rat\<bar> \<le> 0.5"
    unfolding h by (rule of_int_round_abs_le)
  show "\<bar>of_int (round (of_int g * 0.25 / 9 :: rat)) - of_int g * 0.25 / 9 :: rat\<bar> \<le> 0.5"
    unfolding h by (rule of_int_round_abs_le)
  show "\<bar>CAL_PER_GRAM_PROTEIN * of_int (round (of_int g * 0.25 / 4 :: rat))
         + CAL_PER_GRAM_CARBS * of_int (round (of_int g * 0.50 / 4 :: rat))
         + CAL_PER_GRAM_FAT * of_int (round (of_int g * 0.25 / 9 :: rat)) - of_int g\<bar> \<le> 8.5"
    by (rule macro_sum_bound)
qed

theorem macro_calories_near_goal_witness:
  "\<bar>2000 :: int\<bar> \<le> 2 ^ 52
   \<and> allocateMacros (Num 2000) =
       \<lparr>gramsCarbs = Num 250, gramsProtein = Num 125, gramsFat = Num 56\<rparr>
   \<and> \<bar>CAL_PER_GRAM_PROTEIN * 125 + CAL_PER_GRAM_CARBS * 250 + CAL_PER_GRAM_FAT * 56 - 2000\<bar>
       \<le> 8.5"
proof -
  have b: "\<bar>2000 :: int\<bar> \<le> 2 ^ 52" by simp
  from macro_calories_near_goal [OF b] obtain p c f :: int where
    m: "allocateMacros (Num (of_int 2000)) =
       \<lparr>gramsCarbs = Num (of_int c), gramsProtein = Num (of_int p), gramsFat = Num (of_int f)\<rparr>"
    and s: "\<bar>CAL_PER_GRAM_PROTEIN * of_int p + CAL_PER_GRAM_CARBS * of_int c
          + CAL_PER_GRAM_FAT * of_int f - of_int 2000\<bar> \<le> 8.5"
    by blast
  from m have "c = 250" "p = 125" "f = 56"
    by (simp_all add: allocateMacros_2000)
  with s b allocateMacros_2000 show ?thesis by simp
qed

text \<open>
  At the goal \<open>2 ^ 60\<close> the calorie equivalent of the targets is 16 calories away
  from the goal.
\<close>

theorem macro_calories_large_goal_counterexample:
  "allocateMacros (Num 1152921504606846976) =
     \<lparr>gramsCarbs = Num 144115188075855872, gramsProtein = Num 72057594037927936,
      gramsFat = Num 32025597350190192\<rparr>
   \<and> \<not> \<bar>CAL_PER_GRAM_PROTEIN * 72057594037927936 + CAL_PER_GRAM_CARBS * 144115188075855872
          + CAL_PER_GRAM_FAT * 32025597350190192 - 1152921504606846976\<bar> \<le> 8.5"
proof
  show "allocateMacros (Num 1152921504606846976) =
     \<lparr>gramsCarbs = Num 144115188075855872, gramsProtein = Num 72057594037927936,
      gramsFat = Num 32025597350190192\<rparr>"
    by (rule allocateMacros_2_60)
  show "\<not> \<bar>CAL_PER_GRAM_PROTEIN * 72057594037927936 + CAL_PER_GRAM_CARBS * 144115188075855872
          + CAL_PER_GRAM_FAT * 32025597350190192 - 1152921504606846976\<bar> \<le> 8.5"
    by (simp add: CAL_PER_GRAM_PROTEIN_def CAL_PER_GRAM_CARBS_def CAL_PER_GRAM_FAT_def)
qed

section \<open>Timeline\<close>

lemma round_double_int_le:
  assumes "\<bar>n\<bar> \<le> 2 ^ 53"
  shows "round_double (of_int n) = Num (of_int n)"
proof (cases "\<bar>n\<bar> < 2 ^ 53")
  case True
  then show ?thesis by (rule round_double_int)
next
  case False
  with assms have "n = 2 ^ 53 \<or> n = - (2 ^ 53)" by linarith
  then show ?thesis
  proof
    assume n: "n = 2 ^ 53"
    show ?thesis using round_double_exact [of 1 53] unfolding n by simp
  next
    assume n: "n = - (2 ^ 53)"
    show ?thesis using round_double_exact [of "- 1" 53] unfolding n by simp
  qed
qed

lemma weight_difference:
  fixes c t :: int
  assumes "\<bar>c\<bar> \<le> 2 ^ 52" "\<bar>t\<bar> \<le> 2 ^ 52"
  shows "js_sub (Num (of_int c)) (Num (of_int t)) = Num (of_int (c - t))"
proof -
  from assms have "\<bar>c - t\<bar> \<le> 2 ^ 53" by simp
  then have "round_double (of_int (c - t)) = Num (of_int (c - t))"
    by (rule round_double_int_le)
  then show ?thesis by (simp add: js_sub_def)
qed

text \<open>The weeks shown for a positive quotient below \<open>2 ^ 53\<close>.\<close>

lemma weeks_of_quotient:
  fixes q :: rat
  assumes "0 < q" "q < 2 ^ 53"
  shows "\<exists>n. Math_ceil (round_double q) = Num (of_int n)
           \<and> \<lceil>q\<rceil> - 1 \<le> n \<and> n \<le> \<lceil>q\<rceil>
           \<and> (round_double q = Num q \<longrightarrow> n = \<lceil>q\<rceil>)"
proof -
  from assms have "\<bar>q\<bar> < 2 ^ 53" by simp
  from round_double_between [OF this] obtain y where
    y: "round_double q = Num y" and lo: "of_int \<lfloor>q\<rfloor> \<le> y" and hi: "y \<le> of_int \<lceil>q\<rceil>"
    by blast
  from hi have h: "\<lceil>y\<rceil> \<le> \<lceil>q\<rceil>" by (simp only: ceiling_le_iff)
  have "of_int \<lfloor>q\<rfloor> \<le> (of_int \<lceil>y\<rceil> :: rat)" using lo le_of_int_ceiling [of y] by linarith
  then have "\<lfloor>q\<rfloor> \<le> \<lceil>y\<rceil>" by (simp only: of_int_le_iff)
  moreover have "\<lceil>q\<rceil> - 1 \<le> \<lfloor>q\<rfloor>" by linarith
  ultimately have l: "\<lceil>q\<rceil> - 1 \<le> \<lceil>y\<rceil>" by linarith
  have e: "round_double q = Num q \<longrightarrow> \<lceil>y\<rceil> = \<lceil>q\<rceil>" using y by simp
  have "Math_ceil (round_double q) = Num (of_int \<lceil>y\<rceil>)" unfolding y by simp
  with l h e show ?thesis by blast
qed

lemma projectTimeline_integers:
  fixes c t :: int and r :: rat
  assumes "\<bar>c\<bar> \<le> 2 ^ 52" "\<bar>t\<bar> \<le> 2 ^ 52" "0 < r"
  shows "projectTimeline (Num (of_int c)) (Num (of_int t)) (Num r) =
     (if c - t \<le> 0 then AlreadyAtOrPastGoal (Num (of_int t))
      else WeeksRemaining (Math_ceil (round_double (of_int (c - t) / r))))"
  using assms(3) unfolding projectTimeline_def Let_def weight_difference [OF assms(1,2)]
  by (simp add: js_le_def)

lemma handleCalorieGoal_timeline:
  "timeMessage (snd (handleCalorieGoal st form)) =
     projectTimeline (weight_field form) (goal_weight_field form) (weekly_loss_rate_field form)"
  by (simp add: handleCalorieGoal_def Let_def)

lemma projectTimeline_80_75:
  "projectTimeline (Num 80) (Num 75) (Num 0.5) = WeeksRemaining (Num 10)"
proof -
  have b: "\<bar>80 :: int\<bar> \<le> 2 ^ 52" "\<bar>75 :: int\<bar> \<le> 2 ^ 52" "(0 :: rat) < 0.5" by simp_all
  have "round_double 10 = Num 10" using round_double_int [of 10] by simp
  with projectTimeline_integers [OF b] show ?thesis by simp
qed

lemma projectTimeline_70_75:
  "projectTimeline (Num 70) (Num 75) (Num 0.5) = AlreadyAtOrPastGoal (Num 75)"
proof -
  have b: "\<bar>70 :: int\<bar> \<le> 2 ^ 52" "\<bar>75 :: int\<bar> \<le> 2 ^ 52" "(0 :: rat) < 0.5" by simp_all
  from projectTimeline_integers [OF b] show ?thesis by simp
qed

text \<open>
  C4 (as amended). For all integer current and goal weights of magnitude at most
  \<open>2 ^ 52\<close> and every weekly rate above 0 with a quotient
  \<open>(current - goal) / rate\<close> below \<open>2 ^ 53\<close>: the timeline is "already at or past the
  goal" exactly when current weight minus goal weight is at most 0, and otherwise a
  number of weeks, the ceiling of the quotient rounded to a double. That number is the
  ceiling of the exact quotient or one less, and it is the ceiling of the exact quotient
  whenever the quotient is a double itself. (80, 75, 0.5) gives 10 weeks, (70, 75, 0.5)
  is already at the goal. The timeline \<open>handleCalorieGoal\<close> shows is the one of the
  weight, goal weight and weekly loss rate of the form.
\<close>

theorem projectTimeline_outcome:
  fixes c t :: int and r :: rat
  assumes "\<bar>c\<bar> \<le> 2 ^ 52" "\<bar>t\<bar> \<le> 2 ^ 52" "0 < r" "of_int (c - t) / r < 2 ^ 53"
  shows "(c - t \<le> 0 \<longrightarrow>
        projectTimeline (Num (of_int c)) (Num (of_int t)) (Num r) =
          AlreadyAtOrPastGoal (Num (of_int t)))
     \<and> (0 < c - t \<longrightarrow>
          (\<exists>n. projectTimeline (Num (of_int c)) (Num (of_int t)) (Num r) =
                 WeeksRemaining (Num (of_int n))
             \<and> Math_ceil (round_double (of_int (c - t) / r)) = Num (of_int n)
             \<and> \<lceil>of_int (c - t) / r\<rceil> - 1 \<le> n \<and> n \<le> \<lceil>of_int (c - t) / r\<rceil>
             \<and> (round_double (of_int (c - t) / r) = Num (of_int (c - t) / r) \<longrightarrow>
                  n = \<lceil>of_int (c - t) / r\<rceil>)))
     \<and> ((\<exists>x. projectTimeline (Num (of_int c)) (Num (of_int t)) (Num r) =
               AlreadyAtOrPastGoal x) \<longleftrightarrow> c - t \<le> 0)
     \<and> projectTimeline (Num 80) (Num 75) (Num 0.5) = WeeksRemaining (Num 10)
     \<and> projectTimeline (Num 70) (Num 75) (Num 0.5) = AlreadyAtOrPastGoal (Num 75)
     \<and> timeMessage (snd (handleCalorieGoal st form)) =
         projectTimeline (weight_field form) (goal_weight_field form)
           (weekly_loss_rate_field form)"
proof (intro conjI impI)
  note pt = projectTimeline_integers [OF assms(1-3)]
  {
    assume "c - t \<le> 0"
    then show "projectTimeline (Num (of_int c)) (Num (of_int t)) (Num r) =
          AlreadyAtOrPastGoal (Num (of_int t))"
      unfolding pt by simp
  }
  {
    assume d: "0 < c - t"
    then have "0 < (of_int (c - t) :: rat)" by (simp only: of_int_0_less_iff)
    with assms(3) have "0 < of_int (c - t) / r" by simp
    from weeks_of_quotient [OF this assms(4)] obtain n where
      n: "Math_ceil (round_double (of_int (c - t) / r)) = Num (of_int n)"
         "\<lceil>of_int (c - t) / r\<rceil> - 1 \<le> n" "n \<le> \<lceil>of_int (c - t) / r\<rceil>"
         "round_double (of_int (c - t) / r) = Num (of_int (c - t) / r) \<longrightarrow>
            n = \<lceil>of_int (c - t) / r\<rceil>"
      by blast
    from d have "projectTimeline (Num (of_int c)) (Num (of_int t)) (Num r) =
        WeeksRemaining (Num (of_int n))"
      unfolding pt n(1) [symmetric] by simp
    with n show "\<exists>n. projectTimeline (Num (of_int c)) (Num (of_int t)) (Num r) =
                 WeeksRemaining (Num (of_int n))
             \<and> Math_ceil (round_double (of_int (c - t) / r)) = Num (of_int n)
             \<and> \<lceil>of_int (c - t) / r\<rceil> - 1 \<le> n \<and> n \<le> \<lceil>of_int (c - t) / r\<rceil>
             \<and> (round_double (of_int (c - t) / r) = Num (of_int (c - t) / r) \<longrightarrow>
                  n = \<lceil>of_int (c - t) / r\<rceil>)"
      by blast
  }
  show "(\<exists>x. projectTimeline (Num (of_int c)) (Num (of_int t)) (Num r) =
               AlreadyAtOrPastGoal x) \<longleftrightarrow> c - t \<le> 0"
    unfolding pt by simp
  show "projectTimeline (Num 80) (Num 75) (Num 0.5) = WeeksRemaining (Num 10)"
    by (rule projectTimeline_80_75)
  show "projectTimeline (Num 70) (Num 75) (Num 0.5) = AlreadyAtOrPastGoal (Num 75)"
    by (rule projectTimeline_70_75)
  show "timeMessage (snd (handleCalorieGoal st form)) =
         projectTimeline (weight_field form) (goal_weight_field form)
           (weekly_loss_rate_field form)"
    by (rule handleCalorieGoal_timeline)
qed

lemma ceiling_20_3: "\<lceil>of_int (80 - 75) / (3 / 4) :: rat\<rceil> = 7"
  by (rule ceiling_unique) simp_all

theorem projectTimeline_outcome_witness:
  "\<bar>80 :: int\<bar> \<le> 2 ^ 52 \<and> \<bar>75 :: int\<bar> \<le> 2 ^ 52 \<and> (0 :: rat) < 3 / 4
   \<and> of_int (80 - 75) / (3 / 4 :: rat) < 2 ^ 53 \<and> (0 :: int) < 80 - 75
   \<and> (\<exists>n. projectTimeline (Num 80) (Num 75) (Num (3 / 4)) = WeeksRemaining (Num (of_int n))
          \<and> 6 \<le> n \<and> n \<le> 7)"
proof -
  have b: "\<bar>80 :: int\<bar> \<le> 2 ^ 52" "\<bar>75 :: int\<bar> \<le> 2 ^ 52" "(0 :: rat) < 3 / 4"
    "of_int (80 - 75) / (3 / 4 :: rat) < 2 ^ 53"
    by simp_all
  have d: "(0 :: int) < 80 - 75" by simp
  from projectTimeline_outcome [OF b, THEN conjunct2, THEN conjunct1, rule_format, OF d]
  obtain n where "projectTimeline (Num (of_int 80)) (Num (of_int 75)) (Num (3 / 4)) =
        WeeksRemaining (Num (of_int n))"
      "\<lceil>of_int (80 - 75) / (3 / 4) :: rat\<rceil> - 1 \<le> n" "n \<le> \<lceil>of_int (80 - 75) / (3 / 4) :: rat\<rceil>"
    by blast
  then have "projectTimeline (Num 80) (Num 75) (Num (3 / 4)) = WeeksRemaining (Num (of_int n))
      \<and> 6 \<le> n \<and> n \<le> 7"
    unfolding ceiling_20_3 by simp
  with b d show ?thesis by blast
qed

lemma ceiling_0_3: "\<lceil>of_int (73 - 70) / double_0_3\<rceil> = 11"
  unfolding double_0_3_def by (rule ceiling_unique) simp_all

text \<open>
  From 73 kg to 70 kg at the rate \<^verbatim>\<open>0.3\<close>: the quotient of 3 by that double is a
  little above 10 and rounds to the double 10, so 10 weeks are shown, and the ceiling of
  the quotient is 11.
\<close>

theorem projectTimeline_rounded_quotient_counterexample:
  "projectTimeline (Num 73) (Num 70) (Num double_0_3) = WeeksRemaining (Num 10)
   \<and> \<lceil>of_int (73 - 70) / double_0_3\<rceil> = 11"
proof
  have b: "\<bar>73 :: int\<bar> \<le> 2 ^ 52" "\<bar>70 :: int\<bar> \<le> 2 ^ 52" "0 < double_0_3"
    by (simp_all add: double_0_3_def)
  have q: "round_double (of_int (73 - 70) / double_0_3) = Num 10"
    unfolding double_0_3_def
    using round_double_eval [of "- 49" "3 / (5404319552844595 / 2 ^ 54)" 5629499534213120]
    by (simp add: power_int_minus_divide)
  have c: "Math_ceil (Num 10) = Num 10" by simp
  from projectTimeline_integers [OF b]
  show "projectTimeline (Num 73) (Num 70) (Num double_0_3) = WeeksRemaining (Num 10)"
    unfolding q c by simp
  show "\<lceil>of_int (73 - 70) / double_0_3\<rceil> = 11" by (rule ceiling_0_3)
qed

text \<open>The rate \<^verbatim>\<open>0.7\<close>: 21 kg take 31 weeks, one more than 21 / (7/10).\<close>

lemma projectTimeline_91_70_0_7:
  "projectTimeline (Num 91) (Num 70) (Num double_0_7) = WeeksRemaining (Num 31)"
proof -
  have b: "\<bar>91 :: int\<bar> \<le> 2 ^ 52" "\<bar>70 :: int\<bar> \<le> 2 ^ 52" "0 < double_0_7"
    by (simp_all add: double_0_7_def)
  have q: "round_double (of_int (91 - 70) / double_0_7) = Num (8444249301319681 / 2 ^ 48)"
    unfolding double_0_7_def
    using round_double_eval [of "- 48" "21 / (3152519739159347 / 2 ^ 52)" 8444249301319681]
    by (simp add: power_int_minus_divide)
  have "\<lceil>8444249301319681 / 2 ^ 48 :: rat\<rceil> = 31"
    by (rule ceiling_unique) simp_all
  then have c: "Math_ceil (Num (8444249301319681 / 2 ^ 48)) = Num 31" by simp
  from projectTimeline_integers [OF b] show ?thesis
    unfolding q c by simp
qed

section \<open>Trimming\<close>

lemma rev_dropWhile_split:
  "xs = rev (dropWhile P (rev xs)) @ rev (takeWhile P (rev xs))"
proof -
  have "rev (takeWhile P (rev xs) @ dropWhile P (rev xs)) = rev (rev xs)"
    by (simp only: takeWhile_dropWhile_id)
  then show ?thesis
    by (simp only: rev_append rev_rev_ident)
qed

lemma list_all_takeWhile: "list_all P (takeWhile P xs)"
  by (induction xs) simp_all

lemma trim_split:
  "dropWhile is_whitespace s =
     String_trim s @ rev (takeWhile is_whitespace (rev (dropWhile is_whitespace s)))"
  unfolding String_trim_def by (rule rev_dropWhile_split)

lemma trim_empty_iff: "String_trim s = [] \<longleftrightarrow> list_all is_whitespace s"
proof
  assume e: "String_trim s = []"
  have "dropWhile is_whitespace s = []"
  proof (rule ccontr)
    assume ne: "dropWhile is_whitespace s \<noteq> []"
    then have nh: "\<not> is_whitespace (hd (dropWhile is_whitespace s))"
      by (rule hd_dropWhile)
    from ne have "hd (dropWhile is_whitespace s) \<in> set (dropWhile is_whitespace s)"
      by (rule hd_in_set)
    then have "hd (dropWhile is_whitespace s)
        \<in> set (takeWhile is_whitespace (rev (dropWhile is_whitespace s)))"
      using trim_split [of s] e by (metis append_Nil set_rev)
    then have "is_whitespace (hd (dropWhile is_whitespace s))"
      by (rule set_takeWhileD [THEN conjunct2])
    with nh show False by contradiction
  qed
  then show "list_all is_whitespace s"
    by (simp only: dropWhile_eq_Nil_conv list_all_iff)
next
  assume "list_all is_whitespace s"
  then have d: "dropWhile is_whitespace s = []"
    by (simp only: dropWhile_eq_Nil_conv list_all_iff)
  show "String_trim s = []"
    unfolding String_trim_def d by simp
qed

lemma trim_decompose:
  "\<exists>pre post. s = pre @ String_trim s @ post
     \<and> list_all is_whitespace pre \<and> list_all is_whitespace post"
proof (intro exI conjI)
  let ?m = "dropWhile is_whitespace s"
  have "s = takeWhile is_whitespace s @ ?m"
    by (simp only: takeWhile_dropWhile_id)
  then show "s = takeWhile is_whitespace s @ String_trim s @ rev (takeWhile is_whitespace (rev ?m))"
    using trim_split [of s] by simp
  show "list_all is_whitespace (takeWhile is_whitespace s)"
    by (rule list_all_takeWhile)
  show "list_all is_whitespace (rev (takeWhile is_whitespace (rev ?m)))"
    by (simp add: list_all_takeWhile)
qed

lemma trim_last:
  assumes "String_trim s \<noteq> []"
  shows "\<not> is_whitespace (last (String_trim s))"
proof -
  let ?d = "dropWhile is_whitespace (rev (dropWhile is_whitespace s))"
  from assms have d: "?d \<noteq> []" by (simp add: String_trim_def)
  then have "\<not> is_whitespace (hd ?d)" by (rule hd_dropWhile)
  with d show ?thesis
    by (simp add: String_trim_def last_rev)
qed

lemma trim_hd:
  assumes "String_trim s \<noteq> []"
  shows "\<not> is_whitespace (hd (String_trim s))"
proof -
  let ?m = "dropWhile is_whitespace s"
  have m: "?m \<noteq> []"
  proof
    assume e: "?m = []"
    have "String_trim s = []"
      unfolding String_trim_def e by simp
    with assms show False by contradiction
  qed
  then have nh: "\<not> is_whitespace (hd ?m)" by (rule hd_dropWhile)
  have "hd ?m = hd (String_trim s @ rev (takeWhile is_whitespace (rev ?m)))"
    using trim_split [of s] by simp
  with assms have "hd ?m = hd (String_trim s)" by simp
  with nh show ?thesis by simp
qed

section \<open>Stored values and lists\<close>

lemma JSON_value_number: "JSON_value (JSON_number x) = JSON_number x"
  by (cases x) simp_all

lemma JSON_value_idem: "JSON_value (JSON_value v) = JSON_value v"
  by (cases v) (simp_all add: JSON_value_number)

lemma JSON_entry_idem: "JSON_entry (JSON_entry item) = JSON_entry item"
  by (simp add: JSON_entry_def JSON_value_idem)

lemma map_JSON_entry_idem: "map JSON_entry (map JSON_entry xs) = map JSON_entry xs"
  by (simp add: JSON_entry_idem)

lemma name_JSON_entry: "name (JSON_entry item) = name item"
  by (simp add: JSON_entry_def)

lemma JSON_entry_of: "JSON_entry (entry_of p) = entry_of p"
  by (simp add: JSON_entry_def entry_of_def)

lemma current_log_idem: "map JSON_entry (current_log st) = current_log st"
  by (simp add: current_log_def getFromLocalStorage_def JSON_entry_idem split: option.splits)

lemma current_log_saved:
  "current_log (st\<lparr>foodLog := Some xs\<rparr>) = map JSON_entry xs"
  by (simp add: current_log_def getFromLocalStorage_def)

lemma map_Array_splice: "map f (Array_splice xs start n) = Array_splice (map f xs) start n"
  by (simp add: Array_splice_def Let_def take_map drop_map)

lemma set_Array_splice: "set (Array_splice xs start n) \<subseteq> set xs"
proof -
  have "set (take i xs) \<union> set (drop j xs) \<subseteq> set xs" for i j
    using set_take_subset [of i xs] set_drop_subset [of j xs] by blast
  then show ?thesis
    by (simp add: Array_splice_def Let_def)
qed

lemma Array_splice_in_bounds:
  "0 \<le> i \<Longrightarrow> i < int (length xs) \<Longrightarrow>
   Array_splice xs (Num (of_int i)) 1 = take (nat i) xs @ drop (Suc (nat i)) xs"
  by (simp add: Array_splice_def Let_def min_def max_def nat_add_distrib)

lemma Array_splice_beyond:
  "int (length xs) \<le> i \<Longrightarrow> Array_splice xs (Num (of_int i)) 1 = xs"
  by (simp add: Array_splice_def Let_def min_def max_def)

lemma Array_splice_infinity: "Array_splice xs PosInf 1 = xs"
  by (simp add: Array_splice_def Let_def)

lemma Array_splice_negative:
  "i < 0 \<Longrightarrow> xs \<noteq> [] \<Longrightarrow>
   Array_splice xs (Num (of_int i)) 1 =
     take (nat (int (length xs) + i)) xs @ drop (Suc (nat (int (length xs) + i))) xs"
  by (cases "0 \<le> int (length xs) + i")
     (auto simp add: Array_splice_def Let_def min_def max_def nat_add_distrib)

section \<open>Adding an entry\<close>

lemma handleFoodLog_accept:
  "String_trim raw \<noteq> [] \<Longrightarrow> js_gt cal (Num 0) \<Longrightarrow>
   handleFoodLog st raw cal =
     (st\<lparr>foodLog := Some (current_log st @ [\<lparr>name = String_trim raw, calories = Number cal\<rparr>])\<rparr>,
      Rendered (renderLogAndSummary
                  (current_log st @ [\<lparr>name = String_trim raw, calories = Number cal\<rparr>])
                  (getFromLocalStorage JSON_number (dailyCalorieGoal st) (Number (Num 0)))))"
  by (simp add: handleFoodLog_def current_log_def Let_def)

lemma handleFoodLog_reject:
  "String_trim raw = [] \<or> \<not> js_gt cal (Num 0) \<Longrightarrow> handleFoodLog st raw cal = (st, Alert)"
  by (auto simp add: handleFoodLog_def Let_def)

text \<open>The guard of the handler, \<^verbatim>\<open>name && calories > 0\<close>.\<close>

lemma handleFoodLog_guard:
  "snd (handleFoodLog st raw cal) \<noteq> Alert \<longleftrightarrow>
   String_trim raw \<noteq> [] \<and> js_gt cal (Num 0)"
  by (auto simp add: handleFoodLog_def Let_def)

lemma not_js_gt_zero:
  "\<not> js_gt cal (Num 0) \<longleftrightarrow> js_le cal (Num 0) \<or> cal = NaN"
  by (cases cal) (auto simp add: js_gt_def js_le_def)

lemma current_log_accepted:
  assumes "String_trim raw \<noteq> []" "js_gt cal (Num 0)"
  shows "current_log (fst (handleFoodLog st raw cal)) =
     current_log st @ [\<lparr>name = String_trim raw, calories = JSON_number cal\<rparr>]"
  unfolding handleFoodLog_accept [OF assms] fst_conv current_log_saved
  by (simp add: current_log_idem JSON_entry_def)

text \<open>
  C5 (as amended). \<open>handleFoodLog\<close> rejects the entry with the alert exactly when
  the name is empty or all white space, or the calories are at most 0, or the calories
  are \<open>NaN\<close> (what \<^verbatim>\<open>parseInt\<close> returns for an empty or non-numeric field). A
  rejected entry leaves the storage as it was. An accepted one appends a single new
  entry at the end of the log, with the trimmed name and, when the calories are a
  finite number, those calories, and leaves the stored goal alone.
\<close>

theorem handleFoodLog_validation:
  "(snd (handleFoodLog st raw cal) = Alert \<longleftrightarrow>
      list_all is_whitespace raw \<or> js_le cal (Num 0) \<or> cal = NaN)
   \<and> (snd (handleFoodLog st raw cal) = Alert \<longrightarrow> fst (handleFoodLog st raw cal) = st)
   \<and> (snd (handleFoodLog st raw cal) \<noteq> Alert \<longrightarrow>
        (\<exists>item. current_log (fst (handleFoodLog st raw cal)) = current_log st @ [item]
           \<and> name item = String_trim raw
           \<and> (\<forall>c. cal = Num c \<longrightarrow> calories item = Number (Num c))
           \<and> dailyCalorieGoal (fst (handleFoodLog st raw cal)) = dailyCalorieGoal st))"
proof (intro conjI impI)
  have "snd (handleFoodLog st raw cal) = Alert \<longleftrightarrow>
      String_trim raw = [] \<or> \<not> js_gt cal (Num 0)"
    using handleFoodLog_guard [of st raw cal] by blast
  then show "snd (handleFoodLog st raw cal) = Alert \<longleftrightarrow>
      list_all is_whitespace raw \<or> js_le cal (Num 0) \<or> cal = NaN"
    unfolding trim_empty_iff not_js_gt_zero .
next
  assume "snd (handleFoodLog st raw cal) = Alert"
  then have "String_trim raw = [] \<or> \<not> js_gt cal (Num 0)"
    using handleFoodLog_guard [of st raw cal] by blast
  then show "fst (handleFoodLog st raw cal) = st"
    by (simp add: handleFoodLog_reject)
next
  assume "snd (handleFoodLog st raw cal) \<noteq> Alert"
  then have a: "String_trim raw \<noteq> []" "js_gt cal (Num 0)"
    using handleFoodLog_guard [of st raw cal] by blast+
  let ?item = "\<lparr>name = String_trim raw, calories = JSON_number cal\<rparr>"
  have "current_log (fst (handleFoodLog st raw cal)) = current_log st @ [?item]"
    using a by (rule current_log_accepted)
  moreover have "name ?item = String_trim raw" by simp
  moreover have "\<forall>c. cal = Num c \<longrightarrow> calories ?item = Number (Num c)" by simp
  moreover have "dailyCalorieGoal (fst (handleFoodLog st raw cal)) = dailyCalorieGoal st"
    unfolding handleFoodLog_accept [OF a] by simp
  ultimately show "\<exists>item. current_log (fst (handleFoodLog st raw cal)) = current_log st @ [item]
           \<and> name item = String_trim raw
           \<and> (\<forall>c. cal = Num c \<longrightarrow> calories item = Number (Num c))
           \<and> dailyCalorieGoal (fst (handleFoodLog st raw cal)) = dailyCalorieGoal st"
    by blast
qed

lemma trim_Apple: "String_trim ''Apple'' = ''Apple''"
  by (simp add: String_trim_def is_whitespace_def)

lemma trim_blank: "String_trim ''   '' = []"
  by (simp add: String_trim_def is_whitespace_def)

lemma current_log_empty: "current_log empty_storage = []"
  by (simp add: current_log_def empty_storage_def getFromLocalStorage_def)

theorem handleFoodLog_validation_witness:
  "snd (handleFoodLog empty_storage ''Apple'' (Num 95)) \<noteq> Alert
   \<and> current_log (fst (handleFoodLog empty_storage ''Apple'' (Num 95))) =
       [\<lparr>name = ''Apple'', calories = Number (Num 95)\<rparr>]
   \<and> snd (handleFoodLog empty_storage ''   '' (Num 95)) = Alert
   \<and> fst (handleFoodLog empty_storage ''   '' (Num 95)) = empty_storage
   \<and> snd (handleFoodLog empty_storage ''Apple'' (Num 0)) = Alert"
proof -
  note a = handleFoodLog_validation [of empty_storage "''Apple''" "Num 95"]
  note b = handleFoodLog_validation [of empty_storage "''   ''" "Num 95"]
  note c = handleFoodLog_validation [of empty_storage "''Apple''" "Num 0"]
  have ws: "\<not> list_all is_whitespace ''Apple''" "list_all is_whitespace ''   ''"
    by (simp_all add: is_whitespace_def)
  have le: "\<not> js_le (Num 95) (Num 0)" "js_le (Num 0) (Num 0)"
    by (simp_all add: js_le_def)
  from a ws le have a1: "snd (handleFoodLog empty_storage ''Apple'' (Num 95)) \<noteq> Alert"
    by simp
  with a obtain item where
    "current_log (fst (handleFoodLog empty_storage ''Apple'' (Num 95))) = current_log empty_storage @ [item]"
    "name item = String_trim ''Apple''" "calories item = Number (Num 95)"
    by blast
  then have a2: "current_log (fst (handleFoodLog empty_storage ''Apple'' (Num 95))) =
       [\<lparr>name = ''Apple'', calories = Number (Num 95)\<rparr>]"
    by (simp add: current_log_empty trim_Apple)
  from b ws have b1: "snd (handleFoodLog empty_storage ''   '' (Num 95)) = Alert" by simp
  with b have b2: "fst (handleFoodLog empty_storage ''   '' (Num 95)) = empty_storage" by simp
  from c le have c1: "snd (handleFoodLog empty_storage ''Apple'' (Num 0)) = Alert" by simp
  from a1 a2 b1 b2 c1 show ?thesis by blast
qed

text \<open>
  The calories \<open>NaN\<close> with the name \<open>Apple\<close>: the entry is rejected although the
  name is not blank and \<^verbatim>\<open>NaN <= 0\<close> is false.
\<close>

theorem handleFoodLog_nan_counterexample:
  "snd (handleFoodLog empty_storage ''Apple'' NaN) = Alert
   \<and> \<not> list_all is_whitespace ''Apple''
   \<and> \<not> js_le NaN (Num 0)"
  by (simp add: handleFoodLog_def is_whitespace_def js_le_def js_gt_def)

section \<open>Deleting an entry\<close>

lemma handleDeleteFood_log:
  "current_log (fst (handleDeleteFood st True idx)) = Array_splice (current_log st) idx 1"
proof -
  have "current_log (fst (handleDeleteFood st True idx)) =
      map JSON_entry (Array_splice (current_log st) idx 1)"
    by (simp add: handleDeleteFood_def Let_def current_log_saved flip: current_log_def)
  then show ?thesis by (simp only: map_Array_splice current_log_idem)
qed

lemma nth_take_drop_Suc:
  "k < length xs \<Longrightarrow> j < length xs - 1 \<Longrightarrow>
   (take k xs @ drop (Suc k) xs) ! j = (if j < k then xs ! j else xs ! Suc j)"
  by (auto simp add: nth_append min_def)

lemma handleDeleteFood_negative_index:
  "i < 0 \<Longrightarrow> current_log st \<noteq> [] \<Longrightarrow>
   current_log (fst (handleDeleteFood st True (Num (of_int i)))) =
     take (nat (int (length (current_log st)) + i)) (current_log st)
       @ drop (Suc (nat (int (length (current_log st)) + i))) (current_log st)"
  by (simp add: handleDeleteFood_log Array_splice_negative)

text \<open>
  C6 (as amended). A click on the delete button of index \<open>i\<close> with
  \<open>0 \<le> i < length\<close> removes exactly the entry at that index: the log becomes the
  entries before \<open>i\<close> followed by the entries after \<open>i\<close>, each moved back by one
  and none reordered. An index at or beyond the length of the log, an infinite one
  included, leaves the log unchanged.
\<close>

theorem handleDeleteFood_by_index:
  "(0 \<le> i \<and> i < int (length (current_log st)) \<longrightarrow>
      current_log (fst (handleDeleteFood st True (Num (of_int i)))) =
        take (nat i) (current_log st) @ drop (Suc (nat i)) (current_log st)
      \<and> length (current_log (fst (handleDeleteFood st True (Num (of_int i))))) =
          length (current_log st) - 1
      \<and> (\<forall>j. j < nat i \<longrightarrow>
            current_log (fst (handleDeleteFood st True (Num (of_int i)))) ! j = current_log st ! j)
      \<and> (\<forall>j. nat i \<le> j \<and> Suc j < length (current_log st) \<longrightarrow>
            current_log (fst (handleDeleteFood st True (Num (of_int i)))) ! j = current_log st ! Suc j))
   \<and> (int (length (current_log st)) \<le> i \<longrightarrow>
        current_log (fst (handleDeleteFood st True (Num (of_int i)))) = current_log st)
   \<and> current_log (fst (handleDeleteFood st True PosInf)) = current_log st"
proof (intro conjI impI allI)
  assume b: "0 \<le> i \<and> i < int (length (current_log st))"
  then have k: "nat i < length (current_log st)" by linarith
  from b show eq: "current_log (fst (handleDeleteFood st True (Num (of_int i)))) =
        take (nat i) (current_log st) @ drop (Suc (nat i)) (current_log st)"
    by (simp add: handleDeleteFood_log Array_splice_in_bounds)
  from k show "length (current_log (fst (handleDeleteFood st True (Num (of_int i))))) =
          length (current_log st) - 1"
    unfolding eq by simp
  fix j
  {
    assume "j < nat i"
    with k show "current_log (fst (handleDeleteFood st True (Num (of_int i)))) ! j = current_log st ! j"
      unfolding eq by (simp add: nth_take_drop_Suc)
  }
  {
    assume a: "nat i \<le> j \<and> Suc j < length (current_log st)"
    then have j: "j < length (current_log st) - 1" and n: "\<not> j < nat i"
      by linarith+
    from nth_take_drop_Suc [OF k j] n
    show "current_log (fst (handleDeleteFood st True (Num (of_int i)))) ! j = current_log st ! Suc j"
      unfolding eq by simp
  }
next
  assume "int (length (current_log st)) \<le> i"
  then show "current_log (fst (handleDeleteFood st True (Num (of_int i)))) = current_log st"
    by (simp add: handleDeleteFood_log Array_splice_beyond)
next
  show "current_log (fst (handleDeleteFood st True PosInf)) = current_log st"
    by (simp add: handleDeleteFood_log Array_splice_infinity)
qed

lemma current_log_apple_bread:
  "current_log apple_bread = [entry_of (''Apple'', 95), entry_of (''Bread'', 120)]"
  by (simp add: apple_bread_def current_log_def getFromLocalStorage_def JSON_entry_of)

theorem handleDeleteFood_by_index_witness:
  "current_log (fst (handleDeleteFood apple_bread True (Num 0))) = [entry_of (''Bread'', 120)]
   \<and> current_log (fst (handleDeleteFood apple_bread True (Num 2))) = current_log apple_bread"
  using handleDeleteFood_by_index [of 0 apple_bread] handleDeleteFood_by_index [of 2 apple_bread]
  by (simp add: current_log_apple_bread)

text \<open>
  The index \<open>-1\<close> is outside the bounds of a log of two entries, and the click is no
  no-op: \<^verbatim>\<open>splice\<close> counts a negative start from the end and removes the last entry.
\<close>

theorem handleDeleteFood_negative_index_counterexample:
  "current_log (fst (handleDeleteFood apple_bread True (Num (- 1)))) = [entry_of (''Apple'', 95)]
   \<and> current_log (fst (handleDeleteFood apple_bread True (Num (- 1)))) \<noteq> current_log apple_bread
   \<and> \<not> (0 \<le> (- 1 :: int) \<and> (- 1 :: int) < int (length (current_log apple_bread)))"
  using handleDeleteFood_negative_index [of "- 1" apple_bread]
  by (simp add: current_log_apple_bread)

section \<open>The summary\<close>

text \<open>The total of whole, non-negative calories below \<open>2 ^ 53\<close> is exact.\<close>

lemma fold_calories:
  fixes a :: int
  assumes "\<forall>p \<in> set xs. 0 \<le> snd p" "0 \<le> a" "a + sum_list (map snd xs) < 2 ^ 53"
  shows "fold (\<lambda>item total. js_add total (ToNumber (calories item))) (map entry_of xs)
           (Num (of_int a)) = Num (of_int (a + sum_list (map snd xs)))"
  using assms
proof (induction xs arbitrary: a)
  case Nil
  then show ?case by simp
next
  case (Cons p xs)
  from Cons.prems have p: "0 \<le> snd p" and rest: "\<forall>q \<in> set xs. 0 \<le> snd q" by simp_all
  from rest have s: "0 \<le> sum_list (map snd xs)" by (intro sum_list_nonneg) auto
  from Cons.prems p s have "\<bar>a + snd p\<bar> < 2 ^ 53" by simp
  then have "round_double (of_int (a + snd p)) = Num (of_int (a + snd p))"
    by (rule round_double_int)
  then have step: "js_add (Num (of_int a)) (ToNumber (calories (entry_of p))) = Num (of_int (a + snd p))"
    by (simp add: entry_of_def)
  have "fold (\<lambda>item total. js_add total (ToNumber (calories item))) (map entry_of xs)
           (Num (of_int (a + snd p))) = Num (of_int (a + snd p + sum_list (map snd xs)))"
    using rest Cons.prems p by (intro Cons.IH) simp_all
  then show ?case by (simp add: step add.assoc)
qed

lemma renderLogAndSummary_consumed:
  assumes "\<forall>p \<in> set xs. 0 \<le> snd p" "sum_list (map snd xs) < 2 ^ 53"
  shows "consumed (renderLogAndSummary (map entry_of xs) goal) = Num (of_int (sum_list (map snd xs)))"
  using fold_calories [of xs 0] assms by (simp add: renderLogAndSummary_def Let_def)

lemma renderLogAndSummary_remaining:
  "remaining (renderLogAndSummary entries goal) =
     js_sub (ToNumber goal) (consumed (renderLogAndSummary entries goal))"
  by (simp add: renderLogAndSummary_def Let_def)

lemma renderLogAndSummary_remaining_integers:
  fixes g :: int
  assumes "\<forall>p \<in> set xs. 0 \<le> snd p" "sum_list (map snd xs) < 2 ^ 53" "0 \<le> g" "g < 2 ^ 53"
  shows "remaining (renderLogAndSummary (map entry_of xs) (Number (Num (of_int g)))) =
     Num (of_int (g - sum_list (map snd xs)))"
proof -
  from assms(1) have "0 \<le> sum_list (map snd xs)" by (intro sum_list_nonneg) auto
  with assms have "\<bar>g - sum_list (map snd xs)\<bar> < 2 ^ 53" by simp
  then have "round_double (of_int (g - sum_list (map snd xs))) = Num (of_int (g - sum_list (map snd xs)))"
    by (rule round_double_int)
  then show ?thesis
    unfolding renderLogAndSummary_remaining renderLogAndSummary_consumed [OF assms(1,2)]
    by (simp add: js_sub_def)
qed

lemma trim_Bread: "String_trim ''Bread'' = ''Bread''"
  by (simp add: String_trim_def is_whitespace_def)

lemma rendering_of_apple_bread:
  "renderLogAndSummary [entry_of (''Apple'', 95), entry_of (''Bread'', 120)] (Number (Num 2000)) =
     \<lparr>listed = [entry_of (''Apple'', 95), entry_of (''Bread'', 120)],
      consumed = Num 215, remaining = Num 1785, over_goal = False\<rparr>"
proof -
  let ?xs = "[(''Apple'', 95), (''Bread'', 120)] :: (string \<times> int) list"
  have h: "\<forall>p \<in> set ?xs. 0 \<le> snd p" "sum_list (map snd ?xs) < 2 ^ 53" "(0::int) \<le> 2000"
    "(2000::int) < 2 ^ 53"
    by simp_all
  have c: "consumed (renderLogAndSummary (map entry_of ?xs) (Number (Num 2000))) = Num 215"
    using renderLogAndSummary_consumed [OF h(1,2)] by simp
  have r: "remaining (renderLogAndSummary (map entry_of ?xs) (Number (Num 2000))) = Num 1785"
    using renderLogAndSummary_remaining_integers [OF h] by simp
  have l: "listed (renderLogAndSummary (map entry_of ?xs) (Number (Num 2000))) = map entry_of ?xs"
    by (simp add: renderLogAndSummary_def Let_def)
  have o: "over_goal (renderLogAndSummary (map entry_of ?xs) (Number (Num 2000))) =
      js_lt (remaining (renderLogAndSummary (map entry_of ?xs) (Number (Num 2000)))) (Num 0)"
    by (simp add: renderLogAndSummary_def Let_def)
  show ?thesis
    using c r l o by (cases "renderLogAndSummary (map entry_of ?xs) (Number (Num 2000))") simp
qed

lemma apple_then_bread:
  "snd (handleFoodLog
          (fst (handleFoodLog \<lparr>dailyCalorieGoal = Some (Num 2000), foodLog = None\<rparr>
                  ''Apple'' (Num 95)))
          ''Bread'' (Num 120)) =
     Rendered \<lparr>listed = [entry_of (''Apple'', 95), entry_of (''Bread'', 120)],
               consumed = Num 215, remaining = Num 1785, over_goal = False\<rparr>"
proof -
  let ?st0 = "\<lparr>dailyCalorieGoal = Some (Num 2000), foodLog = None\<rparr>"
  have g: "js_gt (Num 95) (Num 0)" "js_gt (Num 120) (Num 0)" by (simp_all add: js_gt_def)
  have n: "String_trim ''Apple'' \<noteq> []" "String_trim ''Bread'' \<noteq> []"
    by (simp_all add: trim_Apple trim_Bread)
  have l0: "current_log ?st0 = []"
    by (simp add: current_log_def getFromLocalStorage_def)
  have l1: "current_log (fst (handleFoodLog ?st0 ''Apple'' (Num 95))) = [entry_of (''Apple'', 95)]"
    unfolding current_log_accepted [OF n(1) g(1)] l0 trim_Apple
    by (simp add: entry_of_def)
  have d1: "dailyCalorieGoal (fst (handleFoodLog ?st0 ''Apple'' (Num 95))) = Some (Num 2000)"
    unfolding handleFoodLog_accept [OF n(1) g(1)] by simp
  show ?thesis
    unfolding handleFoodLog_accept [OF n(2) g(2)] snd_conv l1 d1 trim_Bread
    using rendering_of_apple_bread by (simp add: entry_of_def getFromLocalStorage_def)
qed

lemma rendering_over_goal:
  "renderLogAndSummary [entry_of (''Feast'', 2500)] (Number (Num 2000)) =
     \<lparr>listed = [entry_of (''Feast'', 2500)],
      consumed = Num 2500, remaining = Num (- 500), over_goal = True\<rparr>"
proof -
  let ?xs = "[(''Feast'', 2500)] :: (string \<times> int) list"
  have h: "\<forall>p \<in> set ?xs. 0 \<le> snd p" "sum_list (map snd ?xs) < 2 ^ 53" "(0::int) \<le> 2000"
    "(2000::int) < 2 ^ 53"
    by simp_all
  have c: "consumed (renderLogAndSummary (map entry_of ?xs) (Number (Num 2000))) = Num 2500"
    using renderLogAndSummary_consumed [OF h(1,2)] by simp
  have r: "remaining (renderLogAndSummary (map entry_of ?xs) (Number (Num 2000))) = Num (- 500)"
    using renderLogAndSummary_remaining_integers [OF h] by simp
  have l: "listed (renderLogAndSummary (map entry_of ?xs) (Number (Num 2000))) = map entry_of ?xs"
    by (simp add: renderLogAndSummary_def Let_def)
  have o: "over_goal (renderLogAndSummary (map entry_of ?xs) (Number (Num 2000))) =
      js_lt (remaining (renderLogAndSummary (map entry_of ?xs) (Number (Num 2000)))) (Num 0)"
    by (simp add: renderLogAndSummary_def Let_def)
  show ?thesis
    using c r l o by (cases "renderLogAndSummary (map entry_of ?xs) (Number (Num 2000))") simp
qed

text \<open>
  C7 (as amended). For a log whose entries carry whole, non-negative calories with a
  total below \<open>2 ^ 53\<close>, the consumed figure is the sum of the calories of all
  entries; with a whole goal \<open>0 \<le> g < 2 ^ 53\<close> the remaining figure is the goal minus
  that sum. For every log and goal the remaining figure is the goal minus the
  consumed figure in the arithmetic of numbers; it may be negative, which is
  displayed and is no error. From an empty log with goal 2000, entries of 95 and 120
  calories give 215 consumed and 1785 remaining.
\<close>

theorem renderLogAndSummary_totals:
  fixes g :: int
  assumes "\<forall>p \<in> set xs. 0 \<le> snd p" "sum_list (map snd xs) < 2 ^ 53" "0 \<le> g" "g < 2 ^ 53"
  shows "consumed (renderLogAndSummary (map entry_of xs) goal) =
         Num (of_int (sum_list (map snd xs)))
     \<and> remaining (renderLogAndSummary (map entry_of xs) (Number (Num (of_int g)))) =
         Num (of_int (g - sum_list (map snd xs)))
     \<and> remaining (renderLogAndSummary entries goal) =
         js_sub (ToNumber goal) (consumed (renderLogAndSummary entries goal))
     \<and> snd (handleFoodLog
              (fst (handleFoodLog \<lparr>dailyCalorieGoal = Some (Num 2000), foodLog = None\<rparr>
                      ''Apple'' (Num 95)))
              ''Bread'' (Num 120)) =
         Rendered \<lparr>listed = [entry_of (''Apple'', 95), entry_of (''Bread'', 120)],
                   consumed = Num 215, remaining = Num 1785, over_goal = False\<rparr>
     \<and> renderLogAndSummary [entry_of (''Feast'', 2500)] (Number (Num 2000)) =
         \<lparr>listed = [entry_of (''Feast'', 2500)],
          consumed = Num 2500, remaining = Num (- 500), over_goal = True\<rparr>"
  using renderLogAndSummary_consumed [OF assms(1,2)]
    renderLogAndSummary_remaining_integers [OF assms]
    renderLogAndSummary_remaining apple_then_bread rendering_over_goal
  by (intro conjI)

theorem renderLogAndSummary_totals_witness:
  "(\<forall>p \<in> set [(''Apple'', 95 :: int), (''Bread'', 120)]. 0 \<le> snd p) = True
   \<and> sum_list (map snd [(''Apple'', 95 :: int), (''Bread'', 120)]) < 2 ^ 53
   \<and> (0 :: int) \<le> 200 \<and> (200 :: int) < 2 ^ 53
   \<and> consumed (renderLogAndSummary [entry_of (''Apple'', 95), entry_of (''Bread'', 120)]
        (Number (Num 200))) = Num 215
   \<and> remaining (renderLogAndSummary [entry_of (''Apple'', 95), entry_of (''Bread'', 120)]
        (Number (Num 200))) = Num (- 15)"
proof -
  let ?xs = "[(''Apple'', 95), (''Bread'', 120)] :: (string \<times> int) list"
  have h: "\<forall>p \<in> set ?xs. 0 \<le> snd p" "sum_list (map snd ?xs) < 2 ^ 53" "(0::int) \<le> 200"
    "(200::int) < 2 ^ 53"
    by simp_all
  note t = renderLogAndSummary_totals [OF h, where goal = "Number (Num 200)"]
  from t [THEN conjunct1] t [THEN conjunct2, THEN conjunct1] show ?thesis by simp
qed

text \<open>
  Beyond \<open>2 ^ 53\<close> the running total is rounded at each addition: a log of
  \<open>2 ^ 53\<close> and 1 calories shows \<open>2 ^ 53\<close> consumed, one less than the sum.
\<close>

theorem renderLogAndSummary_large_total_counterexample:
  "consumed (renderLogAndSummary [entry_of (''Feast'', 9007199254740992), entry_of (''Mint'', 1)]
      (Number (Num 2000))) = Num 9007199254740992
   \<and> sum_list [9007199254740992, 1 :: int] = 9007199254740993"
proof
  have a: "round_double 9007199254740992 = Num 9007199254740992"
    using round_double_eval [of 1 "9007199254740992" 4503599627370496] by simp
  have b: "round_double 9007199254740993 = Num 9007199254740992"
    using round_double_tie [of 1 "9007199254740993" 4503599627370496] by simp
  show "consumed (renderLogAndSummary [entry_of (''Feast'', 9007199254740992), entry_of (''Mint'', 1)]
      (Number (Num 2000))) = Num 9007199254740992"
    by (simp add: renderLogAndSummary_def Let_def entry_of_def a b)
  show "sum_list [9007199254740992, 1 :: int] = 9007199254740993" by simp
qed

section \<open>The invariant of the food log\<close>

lemma current_log_goal_submitted:
  "current_log (fst (handleCalorieGoal st form)) = current_log st"
  by (simp add: handleCalorieGoal_def Let_def current_log_def)

lemma current_log_reset:
  "current_log (fst (handleResetDay st confirmed)) = (if confirmed then [] else current_log st)"
  by (simp add: handleResetDay_def Let_def current_log_def getFromLocalStorage_def)

lemma current_log_deleted:
  "set (current_log (fst (handleDeleteFood st delete_btn idx))) \<subseteq> set (current_log st)"
proof (cases delete_btn)
  case True
  then show ?thesis
    using handleDeleteFood_log [of st idx] set_Array_splice [of "current_log st" idx 1] by simp
next
  case False
  then show ?thesis by (simp add: handleDeleteFood_def)
qed

lemma finite_positive:
  assumes "js_gt cal (Num 0)" "cal \<noteq> PosInf"
  shows "\<exists>c. cal = Num c \<and> 0 < c"
  using assms by (cases cal) (simp_all add: js_gt_def)

text \<open>
  Every event keeps the invariant, a food submission whose calories field reads as
  \<open>Infinity\<close> apart.
\<close>

lemma dispatch_keeps_valid:
  assumes inv: "list_all valid_entry (current_log st)"
    and fin: "\<And>food_name. ev \<noteq> SubmitFood food_name PosInf"
  shows "list_all valid_entry (current_log (dispatch st ev))"
proof (cases ev)
  case (SubmitGoal form)
  with inv show ?thesis by (simp add: current_log_goal_submitted)
next
  case (SubmitFood raw cal)
  show ?thesis
  proof (cases "String_trim raw \<noteq> [] \<and> js_gt cal (Num 0)")
    case True
    from fin SubmitFood have "cal \<noteq> PosInf" by blast
    with True obtain c where c: "cal = Num c" "0 < c" using finite_positive by blast
    from True have "current_log (fst (handleFoodLog st raw cal)) =
        current_log st @ [\<lparr>name = String_trim raw, calories = JSON_number cal\<rparr>]"
      by (intro current_log_accepted) simp_all
    with inv True c SubmitFood show ?thesis
      by (simp add: valid_entry_def js_gt_def)
  next
    case False
    then have "handleFoodLog st raw cal = (st, Alert)"
      by (intro handleFoodLog_reject) blast
    with inv SubmitFood show ?thesis by simp
  qed
next
  case (ClickLog delete_btn idx)
  have "set (current_log (dispatch st ev)) \<subseteq> set (current_log st)"
    unfolding ClickLog dispatch.simps by (rule current_log_deleted)
  with inv show ?thesis by (auto simp add: list_all_iff)
next
  case (ClickReset confirmed)
  with inv show ?thesis by (simp add: current_log_reset)
qed

lemma events_keep_valid:
  assumes "\<And>food_name. SubmitFood food_name PosInf \<notin> set evs"
  shows "list_all valid_entry (current_log (foldl dispatch empty_storage evs))"
  using assms
proof (induction evs rule: rev_induct)
  case Nil
  show ?case by (simp add: current_log_empty)
next
  case (snoc ev evs)
  from snoc.prems have "list_all valid_entry (current_log (foldl dispatch empty_storage evs))"
    by (intro snoc.IH) simp
  moreover from snoc.prems have "ev \<noteq> SubmitFood food_name PosInf" for food_name
    by auto
  ultimately show ?case
    by (simp add: dispatch_keeps_valid)
qed

text \<open>
  C8. The invariant holds for the empty log, and the handlers do not all preserve
  it: a submission of the name \<open>Apple\<close> with a calories field that
  \<^verbatim>\<open>parseInt\<close> reads as \<open>Infinity\<close> (a run of more than 308 digits) passes the
  guard \<^verbatim>\<open>name && calories > 0\<close>, \<^verbatim>\<open>JSON.stringify\<close> writes its calories as
  \<^verbatim>\<open>null\<close>, and the log read back holds an entry whose calories are not above 0.
\<close>

theorem food_log_invariant_broken_by_infinite_calories:
  "list_all valid_entry (current_log empty_storage)
   \<and> snd (handleFoodLog empty_storage ''Apple'' PosInf) \<noteq> Alert
   \<and> current_log (dispatch empty_storage (SubmitFood ''Apple'' PosInf)) =
       [\<lparr>name = ''Apple'', calories = Null\<rparr>]
   \<and> \<not> list_all valid_entry (current_log (dispatch empty_storage (SubmitFood ''Apple'' PosInf)))
   \<and> consumed (renderLogAndSummary
        (current_log (dispatch empty_storage (SubmitFood ''Apple'' PosInf))) (Number (Num 0))) = Num 0"
proof -
  have g: "js_gt PosInf (Num 0)" by (simp add: js_gt_def)
  have n: "String_trim ''Apple'' \<noteq> []" by (simp add: trim_Apple)
  have l: "current_log (dispatch empty_storage (SubmitFood ''Apple'' PosInf)) =
       [\<lparr>name = ''Apple'', calories = Null\<rparr>]"
    unfolding dispatch.simps current_log_accepted [OF n g] current_log_empty trim_Apple
    by simp
  have a: "snd (handleFoodLog empty_storage ''Apple'' PosInf) \<noteq> Alert"
    unfolding handleFoodLog_guard using n g by simp
  have r: "round_double 0 = Num 0"
    using round_double_int [of 0] by simp
  show ?thesis
    unfolding l using a r
    by (simp add: current_log_empty valid_entry_def js_gt_def renderLogAndSummary_def Let_def)
qed

section \<open>The stored name\<close>

text \<open>
  C10. When \<open>handleFoodLog\<close> accepts an entry, the name of the entry appended to the
  stored log is the trimmed text of the name field: the text without the white space
  before and after it, which is not empty and neither begins nor ends with white space.
\<close>

theorem handleFoodLog_stores_trimmed_name:
  "snd (handleFoodLog st raw cal) \<noteq> Alert \<Longrightarrow>
     name (last (current_log (fst (handleFoodLog st raw cal)))) = String_trim raw
   \<and> (\<exists>pre post. raw = pre @ String_trim raw @ post
         \<and> list_all is_whitespace pre \<and> list_all is_whitespace post)
   \<and> String_trim raw \<noteq> []
   \<and> \<not> is_whitespace (hd (String_trim raw))
   \<and> \<not> is_whitespace (last (String_trim raw))"
proof -
  assume "snd (handleFoodLog st raw cal) \<noteq> Alert"
  with handleFoodLog_guard [of st raw cal]
  have t: "String_trim raw \<noteq> []" and g: "js_gt cal (Num 0)" by blast+
  have "name (last (current_log (fst (handleFoodLog st raw cal)))) = String_trim raw"
    unfolding current_log_accepted [OF t g] by simp
  with t trim_decompose [of raw] trim_hd [OF t] trim_last [OF t] show ?thesis
    by blast
qed

lemma trim_Apple_pie: "String_trim ''  Apple pie '' = ''Apple pie''"
  by (simp add: String_trim_def is_whitespace_def)

theorem handleFoodLog_stores_trimmed_name_witness:
  "snd (handleFoodLog empty_storage ''  Apple pie '' (Num 95)) \<noteq> Alert
   \<and> name (last (current_log (fst (handleFoodLog empty_storage ''  Apple pie '' (Num 95))))) =
       ''Apple pie''"
proof -
  have a: "snd (handleFoodLog empty_storage ''  Apple pie '' (Num 95)) \<noteq> Alert"
    unfolding handleFoodLog_guard by (simp add: trim_Apple_pie js_gt_def)
  from handleFoodLog_stores_trimmed_name [OF a] a show ?thesis
    by (simp add: trim_Apple_pie)
qed

end
